theory Spec2Isabelle
  imports Main "HOL-Library.Multiset"
begin

section \<open>Data model (the tables of the shared schema)\<close>

text \<open>
  A \<open>timestamp\<close> column holds a point in time; the model counts clock ticks.
  A \<open>serial\<close> column is a natural number drawn from the table's sequence.
  A \<open>varchar\<close> or \<open>text\<close> column is a \<open>string\<close>; a column without
  \<open>notNull()\<close> is an \<open>option\<close> (\<open>None\<close> is SQL NULL).
  The \<open>createdAt\<close> columns have \<open>defaultNow()\<close> and every insert schema
  omits them, so each row written by this program carries the time of its insert.
\<close>

type_synonym timestamp = nat

record User =
  u_id :: string
  email :: "string option"
  firstName :: "string option"
  lastName :: "string option"
  profileImageUrl :: "string option"
  u_createdAt :: "timestamp option"
  u_updatedAt :: "timestamp option"

text \<open>Of a profile, the key, the owner and the presence columns; no operation below
  touches another column.\<close>

record Profile =
  p_id :: nat
  userId :: string
  displayName :: string
  isOnline :: "bool option"
  lastSeen :: "timestamp option"
  p_updatedAt :: "timestamp option"

record Message =
  m_id :: nat
  senderId :: string
  receiverId :: string
  content :: string
  isRead :: "bool option"
  m_createdAt :: timestamp

record Like =
  l_id :: nat
  likerId :: string
  likedId :: string
  l_createdAt :: timestamp

record Block =
  b_id :: nat
  blockerId :: string
  blockedId :: string
  b_createdAt :: timestamp

text \<open>\<open>MessageWithUsers = Message & { sender: User; receiver: User }\<close>. The query
  fills both from a left join, whose user side is \<open>null\<close> when no user row matches
  (the \<open>!\<close> of the source is erased at run time).\<close>

record MessageWithUsers = Message +
  sender :: "User option"
  receiver :: "User option"

text \<open>The insert schemas (\<open>createInsertSchema(table).omit({id, createdAt})\<close>):
  a \<open>notNull\<close> column without default is a required string, a nullable column with
  a default is optional and nullable (absent: \<open>None\<close>; \<open>null\<close>: \<open>Some None\<close>).\<close>

record InsertMessage =
  im_senderId :: string
  im_receiverId :: string
  im_content :: string
  im_isRead :: "bool option option"

record InsertLike =
  il_likerId :: string
  il_likedId :: string

record InsertBlock =
  ib_blockerId :: string
  ib_blockedId :: string

text \<open>The database: each table as the list of its rows in the order of their
  insertion, and the sequences behind the \<open>serial\<close> keys.\<close>

record DB =
  users :: "User list"
  profiles :: "Profile list"
  messages :: "Message list"
  likes :: "Like list"
  blocks :: "Block list"
  messages_id_seq :: nat
  likes_id_seq :: nat
  blocks_id_seq :: nat

text \<open>What a storage call or a schema can throw: a row that references a user that
  does not exist (\<open>references(() => users.id)\<close>), a parameter the column type cannot
  hold (SQLSTATE class 22), and a request body the zod schema refuses. A storage call
  is a promise that resolves (\<open>Inr\<close>) or rejects (\<open>Inl\<close>), and leaves a database
  behind either way.\<close>

datatype error = ForeignKeyViolation | DataException | ZodError

type_synonym 'a promise = "(error + 'a) \<times> DB"

definition user_exists :: "DB \<Rightarrow> string \<Rightarrow> bool" where
  "user_exists db uid \<longleftrightarrow> uid \<in> set (map u_id (users db))"

text \<open>A \<open>varchar\<close> or \<open>text\<close> value cannot hold the character U+0000: the database
  refuses a text parameter with it when the parameter is bound, before the statement
  runs (SQLSTATE 22021). A \<open>serial\<close> key is a 32-bit integer: a parameter compared with
  it must lie in that range (SQLSTATE 22003). The id of a stored user holds no U+0000,
  so an insert that checks an id against the users table refuses such an id in any
  case.\<close>

definition storable_text :: "string \<Rightarrow> bool" where
  "storable_text s \<longleftrightarrow> CHR 0x00 \<notin> set s"

definition int4 :: "int \<Rightarrow> bool" where
  "int4 n \<longleftrightarrow> - 2147483648 \<le> n \<and> n \<le> 2147483647"

section \<open>JSON request bodies and the insert schemas\<close>

datatype json = JNull | JBool bool | JNum int | JStr string
  | JArr "json list" | JObj "(string \<times> json) list"

text \<open>A request body is a JSON object: a finite map from keys to values.
  \<open>{...req.body, k: v}\<close> is the map updated at \<open>k\<close>. zod strips the keys a
  schema does not name.\<close>

type_synonym body = "string \<rightharpoonup> json"

definition insertLikeSchema_parse :: "body \<Rightarrow> error + InsertLike" where
  "insertLikeSchema_parse obj =
     (case obj ''likerId'' of
        Some (JStr a) \<Rightarrow>
          (case obj ''likedId'' of
             Some (JStr b) \<Rightarrow> Inr \<lparr>il_likerId = a, il_likedId = b\<rparr>
           | _ \<Rightarrow> Inl ZodError)
      | _ \<Rightarrow> Inl ZodError)"

text \<open>\<open>isRead\<close> of a message body: absent, \<open>null\<close> or a boolean.\<close>

definition parse_isRead :: "json option \<Rightarrow> error + bool option option" where
  "parse_isRead v =
     (case v of
        None \<Rightarrow> Inr None
      | Some JNull \<Rightarrow> Inr (Some None)
      | Some (JBool b) \<Rightarrow> Inr (Some (Some b))
      | Some _ \<Rightarrow> Inl ZodError)"

definition insertMessageSchema_parse :: "body \<Rightarrow> error + InsertMessage" where
  "insertMessageSchema_parse obj =
     (case obj ''senderId'' of
        Some (JStr s) \<Rightarrow>
          (case obj ''receiverId'' of
             Some (JStr r) \<Rightarrow>
               (case obj ''content'' of
                  Some (JStr c) \<Rightarrow>
                    (case parse_isRead (obj ''isRead'') of
                       Inr rd \<Rightarrow> Inr \<lparr>im_senderId = s, im_receiverId = r,
                                       im_content = c, im_isRead = rd\<rparr>
                     | Inl e \<Rightarrow> Inl e)
                | _ \<Rightarrow> Inl ZodError)
           | _ \<Rightarrow> Inl ZodError)
      | _ \<Rightarrow> Inl ZodError)"

section \<open>Storage: likes\<close>

text \<open>\<open>addLike\<close>: a plain insert. The table has a serial primary key and two
  foreign keys and no unique constraint on the pair; the key is drawn from the sequence
  before the foreign keys are checked.\<close>

definition addLike :: "DB \<Rightarrow> timestamp \<Rightarrow> InsertLike \<Rightarrow> Like promise" where
  "addLike db now like =
     (let newLike = \<lparr>l_id = likes_id_seq db, likerId = il_likerId like,
                      likedId = il_likedId like, l_createdAt = now\<rparr>;
          db1 = db\<lparr>likes_id_seq := Suc (likes_id_seq db)\<rparr>
      in if user_exists db (il_likerId like) \<and> user_exists db (il_likedId like)
         then (Inr newLike, db1\<lparr>likes := likes db @ [newLike]\<rparr>)
         else (Inl ForeignKeyViolation, db1))"

text \<open>\<open>removeLike\<close>: a delete by the two ids, which are text parameters of the
  statement.\<close>

definition removeLike :: "DB \<Rightarrow> string \<Rightarrow> string \<Rightarrow> unit promise" where
  "removeLike db liker liked =
     (if storable_text liker \<and> storable_text liked
      then (Inr (), db\<lparr>likes := filter (\<lambda>l. \<not> (likerId l = liker \<and> likedId l = liked)) (likes db)\<rparr>)
      else (Inl DataException, db))"

text \<open>\<open>getMutualLikes\<close>: the rows of the user with a row in the other direction
  (the correlated \<open>EXISTS\<close> over the alias \<open>l2\<close>), projected to \<open>likedId\<close>. The
  query has no \<open>ORDER BY\<close>; its only caller asks for membership.\<close>

definition getMutualLikes :: "DB \<Rightarrow> string \<Rightarrow> string list" where
  "getMutualLikes db uid =
     map likedId
       (filter (\<lambda>l. likerId l = uid \<and>
                  (\<exists>l2 \<in> set (likes db). likerId l2 = likedId l \<and> likedId l2 = likerId l))
          (likes db))"

text \<open>The stored like edges of an ordered pair.\<close>

definition like_edges :: "DB \<Rightarrow> string \<Rightarrow> string \<Rightarrow> Like list" where
  "like_edges db a b = filter (\<lambda>l. likerId l = a \<and> likedId l = b) (likes db)"

section \<open>Routes: likes\<close>

text \<open>A handler answers with a JSON payload, or with status 500 and a message when
  anything in its \<open>try\<close> block throws.\<close>

datatype 'a response = Json 'a | Status500 string

record like_result =
  like :: Like
  isMatch :: bool

definition POST_api_likes ::
  "DB \<Rightarrow> timestamp \<Rightarrow> string \<Rightarrow> body \<Rightarrow> like_result response \<times> DB" where
  "POST_api_likes db now uid reqBody =
     (case insertLikeSchema_parse (reqBody(''likerId'' \<mapsto> JStr uid)) of
        Inl e \<Rightarrow> (Status500 ''Failed to add like'', db)
      | Inr likeData \<Rightarrow>
          (case addLike db now likeData of
             (Inl e, db') \<Rightarrow> (Status500 ''Failed to add like'', db')
           | (Inr newLike, db') \<Rightarrow>
               (let mutualLikes = getMutualLikes db' uid;
                    match = il_likedId likeData \<in> set mutualLikes
                in (Json \<lparr>like = newLike, isMatch = match\<rparr>, db'))))"

definition DELETE_api_likes :: "DB \<Rightarrow> string \<Rightarrow> string \<Rightarrow> bool response \<times> DB" where
  "DELETE_api_likes db uid liked =
     (case removeLike db uid liked of
        (Inl e, db') \<Rightarrow> (Status500 ''Failed to remove like'', db')
      | (Inr u, db') \<Rightarrow> (Json True, db'))"

section \<open>Storage: messages\<close>

text \<open>\<open>sendMessage\<close>: a plain insert. The two ids and the content are text
  parameters; one that cannot be stored is refused before the statement runs, so that
  no key is drawn. \<open>isRead\<close> takes the column default \<open>false\<close> when the insert
  leaves it out.\<close>

definition sendMessage :: "DB \<Rightarrow> timestamp \<Rightarrow> InsertMessage \<Rightarrow> Message promise" where
  "sendMessage db now message =
     (let newMessage = \<lparr>m_id = messages_id_seq db, senderId = im_senderId message,
                         receiverId = im_receiverId message, content = im_content message,
                         isRead = (case im_isRead message of None \<Rightarrow> Some False | Some v \<Rightarrow> v),
                         m_createdAt = now\<rparr>;
          db1 = db\<lparr>messages_id_seq := Suc (messages_id_seq db)\<rparr>
      in if \<not> (storable_text (im_senderId message) \<and> storable_text (im_receiverId message) \<and>
                storable_text (im_content message))
         then (Inl DataException, db)
         else if user_exists db (im_senderId message) \<and> user_exists db (im_receiverId message)
         then (Inr newMessage, db1\<lparr>messages := messages db @ [newMessage]\<rparr>)
         else (Inl ForeignKeyViolation, db1))"

text \<open>\<open>markMessageAsRead\<close>: an update by the message id, an integer parameter (the
  \<open>number\<close> of the source; a number that is not an integer is refused as well and is
  not modelled), and by the receiver, a text parameter.\<close>

definition markMessageAsRead :: "DB \<Rightarrow> int \<Rightarrow> string \<Rightarrow> unit promise" where
  "markMessageAsRead db messageId uid =
     (if int4 messageId \<and> storable_text uid
      then (Inr (), db\<lparr>messages :=
              map (\<lambda>m. if int (m_id m) = messageId \<and> receiverId m = uid
                       then m\<lparr>isRead := Some True\<rparr> else m)
                (messages db)\<rparr>)
      else (Inl DataException, db))"

subsection \<open>The two conversation queries\<close>

text \<open>A row of \<open>messages LEFT JOIN users ON users.id = messages.sender_id\<close>: the
  message with each matching user, or with \<open>null\<close> when there is none.\<close>

type_synonym message_row = "Message \<times> User option"

definition leftJoin_users :: "DB \<Rightarrow> Message \<Rightarrow> message_row list" where
  "leftJoin_users db m =
     (case filter (\<lambda>u. u_id u = senderId m) (users db) of
        [] \<Rightarrow> [(m, None)]
      | us \<Rightarrow> map (\<lambda>u. (m, Some u)) us)"

text \<open>\<open>ORDER BY key ASC\<close> (\<open>DESC\<close>) promises the selected rows, each once, with
  non-decreasing (non-increasing) keys, and nothing about rows of equal key. A query
  is therefore a predicate on the list the driver hands back.\<close>

definition orderBy_asc :: "('r \<Rightarrow> 'k::linorder) \<Rightarrow> 'r list \<Rightarrow> 'r list \<Rightarrow> bool" where
  "orderBy_asc key rows result \<longleftrightarrow> mset result = mset rows \<and> sorted (map key result)"

definition orderBy_desc :: "('r \<Rightarrow> 'k::linorder) \<Rightarrow> 'r list \<Rightarrow> 'r list \<Rightarrow> bool" where
  "orderBy_desc key rows result \<longleftrightarrow> mset result = mset rows \<and> sorted (rev (map key result))"

definition getConversation_rows :: "DB \<Rightarrow> string \<Rightarrow> string \<Rightarrow> message_row list" where
  "getConversation_rows db userId1 userId2 =
     filter (\<lambda>row. (senderId (fst row) = userId1 \<and> receiverId (fst row) = userId2) \<or>
                    (senderId (fst row) = userId2 \<and> receiverId (fst row) = userId1))
       (concat (map (leftJoin_users db) (messages db)))"

definition getConversation_select ::
  "DB \<Rightarrow> string \<Rightarrow> string \<Rightarrow> message_row list \<Rightarrow> bool" where
  "getConversation_select db userId1 userId2 result \<longleftrightarrow>
     orderBy_asc (\<lambda>row. m_createdAt (fst row)) (getConversation_rows db userId1 userId2) result"

text \<open>\<open>{...row.messages, sender: row.users, receiver: row.users}\<close>.\<close>

definition withUsers :: "message_row \<Rightarrow> MessageWithUsers" where
  "withUsers row =
     \<lparr>m_id = m_id (fst row), senderId = senderId (fst row), receiverId = receiverId (fst row),
      content = content (fst row), isRead = isRead (fst row), m_createdAt = m_createdAt (fst row),
      sender = snd row, receiver = snd row\<rparr>"

definition getConversation_return :: "message_row list \<Rightarrow> MessageWithUsers list" where
  "getConversation_return result = map withUsers result"

definition getConversations_rows :: "DB \<Rightarrow> string \<Rightarrow> message_row list" where
  "getConversations_rows db uid =
     filter (\<lambda>row. senderId (fst row) = uid \<or> receiverId (fst row) = uid)
       (concat (map (leftJoin_users db) (messages db)))"

definition getConversations_select :: "DB \<Rightarrow> string \<Rightarrow> message_row list \<Rightarrow> bool" where
  "getConversations_select db uid latestMessages \<longleftrightarrow>
     orderBy_desc (\<lambda>row. m_createdAt (fst row)) (getConversations_rows db uid) latestMessages"

text \<open>The loop over the rows. \<open>conversationMap\<close> is a JavaScript \<open>Map\<close>: its
  values come out in the order in which their keys were first set, so it is a list of
  pairs that grows at the end.\<close>

definition otherUserId :: "string \<Rightarrow> 'a Message_scheme \<Rightarrow> string" where
  "otherUserId uid message =
     (if senderId message = uid then receiverId message else senderId message)"

fun conversationMap_loop ::
  "string \<Rightarrow> message_row list \<Rightarrow> (string \<times> MessageWithUsers) list
     \<Rightarrow> (string \<times> MessageWithUsers) list" where
  "conversationMap_loop uid [] conversationMap = conversationMap"
| "conversationMap_loop uid (row # rest) conversationMap =
     conversationMap_loop uid rest
       (if map_of conversationMap (otherUserId uid (fst row)) = None
        then conversationMap @ [(otherUserId uid (fst row), withUsers row)]
        else conversationMap)"

definition getConversations_return :: "string \<Rightarrow> message_row list \<Rightarrow> MessageWithUsers list" where
  "getConversations_return uid latestMessages = map snd (conversationMap_loop uid latestMessages [])"

text \<open>The spec's words: the conversation between two users is the set of all messages
  whose \<open>{senderId, receiverId}\<close> is \<open>{A, B}\<close>; the partners of a user are the
  other parties of the messages the user sent or received.\<close>

definition conversation :: "DB \<Rightarrow> string \<Rightarrow> string \<Rightarrow> Message list" where
  "conversation db a b = filter (\<lambda>m. {senderId m, receiverId m} = {a, b}) (messages db)"

definition involves :: "string \<Rightarrow> 'a Message_scheme \<Rightarrow> bool" where
  "involves uid m \<longleftrightarrow> senderId m = uid \<or> receiverId m = uid"

section \<open>Storage: blocks and presence\<close>

definition addBlock :: "DB \<Rightarrow> timestamp \<Rightarrow> InsertBlock \<Rightarrow> Block promise" where
  "addBlock db now block =
     (let newBlock = \<lparr>b_id = blocks_id_seq db, blockerId = ib_blockerId block,
                       blockedId = ib_blockedId block, b_createdAt = now\<rparr>;
          db1 = db\<lparr>blocks_id_seq := Suc (blocks_id_seq db)\<rparr>
      in if user_exists db (ib_blockerId block) \<and> user_exists db (ib_blockedId block)
         then (Inr newBlock, db1\<lparr>blocks := blocks db @ [newBlock]\<rparr>)
         else (Inl ForeignKeyViolation, db1))"

definition block_exists :: "DB \<Rightarrow> string \<Rightarrow> string \<Rightarrow> bool" where
  "block_exists db a b \<longleftrightarrow> (\<exists>bl \<in> set (blocks db). blockerId bl = a \<and> blockedId bl = b)"

text \<open>\<open>updateOnlineStatus\<close> writes every profile row of the user; the two
  \<open>new Date()\<close> of the source are one reading \<open>now\<close> of the clock.\<close>

definition updateOnlineStatus :: "DB \<Rightarrow> timestamp \<Rightarrow> string \<Rightarrow> bool \<Rightarrow> unit promise" where
  "updateOnlineStatus db now uid online =
     (Inr (), db\<lparr>profiles :=
        map (\<lambda>p. if userId p = uid
                 then p\<lparr>isOnline := Some online, lastSeen := Some now, p_updatedAt := Some now\<rparr>
                 else p)
          (profiles db)\<rparr>)"

text \<open>The persisted presence of a user: the two presence columns of each of the
  user's profile rows.\<close>

definition presence :: "DB \<Rightarrow> string \<Rightarrow> (bool option \<times> timestamp option) list" where
  "presence db uid = map (\<lambda>p. (isOnline p, lastSeen p)) (filter (\<lambda>p. userId p = uid) (profiles db))"

section \<open>Routes: messages\<close>

text \<open>A WebSocket of \<open>wss.clients\<close>: the \<open>userId\<close> the handler stores on it
  (\<open>undefined\<close> before an auth frame), and whether its \<open>readyState\<close> is
  \<open>OPEN\<close>. The set iterates in the order of connection; a socket is named by a number.\<close>

record WS =
  ws_userId :: "string option"
  readyState_OPEN :: bool

type_synonym clients = "(nat \<times> WS) list"

text \<open>\<open>POST /api/messages\<close>: parse, persist, push a \<open>new_message\<close> frame to every
  open socket bound to the receiver or the sender, answer with the persisted row. The
  result is the answer, the frames pushed (socket and payload) and the database.\<close>

definition POST_api_messages ::
  "DB \<Rightarrow> clients \<Rightarrow> timestamp \<Rightarrow> string \<Rightarrow> body
     \<Rightarrow> Message response \<times> (nat \<times> Message) list \<times> DB" where
  "POST_api_messages db cs now uid reqBody =
     (case insertMessageSchema_parse (reqBody(''senderId'' \<mapsto> JStr uid)) of
        Inl e \<Rightarrow> (Status500 ''Failed to send message'', [], db)
      | Inr messageData \<Rightarrow>
          (case sendMessage db now messageData of
             (Inl e, db') \<Rightarrow> (Status500 ''Failed to send message'', [], db')
           | (Inr message, db') \<Rightarrow>
               (let messageWithSender = message\<lparr>senderId := uid\<rparr>;
                    pushed = map (\<lambda>client. (fst client, messageWithSender))
                      (filter (\<lambda>client. readyState_OPEN (snd client) \<and>
                                 (ws_userId (snd client) = Some (im_receiverId messageData) \<or>
                                  ws_userId (snd client) = Some uid))
                         cs)
                in (Json message, pushed, db'))))"

section \<open>The WebSocket endpoint\<close>

text \<open>The server: the database and the sockets of \<open>wss.clients\<close>. An incoming
  frame is an auth frame with its \<open>userId\<close>, or anything else: a frame of another
  type is ignored, and text that does not parse throws inside the handler's
  \<open>try\<close> and is logged. Only auth frames whose \<open>userId\<close> is a string are
  modelled.\<close>

record Server =
  storage :: DB
  wss_clients :: clients

datatype frame = Auth string | Ignored

definition ws_connection :: "Server \<Rightarrow> nat \<Rightarrow> Server" where
  "ws_connection s c =
     s\<lparr>wss_clients := wss_clients s @ [(c, \<lparr>ws_userId = None, readyState_OPEN = True\<rparr>)]\<rparr>"

definition ws_on_message :: "Server \<Rightarrow> timestamp \<Rightarrow> nat \<Rightarrow> frame \<Rightarrow> Server" where
  "ws_on_message s now c data =
     (case data of
        Auth uid \<Rightarrow>
          s\<lparr>wss_clients := map (\<lambda>client. if fst client = c
                                         then (c, (snd client)\<lparr>ws_userId := Some uid\<rparr>)
                                         else client) (wss_clients s),
            storage := snd (updateOnlineStatus (storage s) now uid True)\<rparr>
      | Ignored \<Rightarrow> s)"

text \<open>On close the library drops the socket from \<open>wss.clients\<close>; the handler
  writes the user offline when \<open>ws.userId\<close> is truthy (set, and not the empty
  string).\<close>

definition ws_on_close :: "Server \<Rightarrow> timestamp \<Rightarrow> nat \<Rightarrow> Server" where
  "ws_on_close s now c =
     (case map_of (wss_clients s) c of
        None \<Rightarrow> s
      | Some ws \<Rightarrow>
          (let s1 = s\<lparr>wss_clients := filter (\<lambda>client. fst client \<noteq> c) (wss_clients s)\<rparr>
           in case ws_userId ws of
                None \<Rightarrow> s1
              | Some uid \<Rightarrow>
                  if uid \<noteq> [] then s1\<lparr>storage := snd (updateOnlineStatus (storage s1) now uid False)\<rparr>
                  else s1))"

section \<open>Notions used in the statements\<close>

text \<open>The spec's "empty or whitespace-only" content.\<close>

definition blank :: "string \<Rightarrow> bool" where
  "blank c \<longleftrightarrow> (\<forall>ch \<in> set c. ch \<in> {CHR '' '', CHR 0x09, CHR 0x0A, CHR 0x0D})"

text \<open>The sockets a message between two users is pushed to.\<close>

definition pushed_to :: "clients \<Rightarrow> string \<Rightarrow> string \<Rightarrow> nat list" where
  "pushed_to cs S R = map fst (filter (\<lambda>client. readyState_OPEN (snd client) \<and>
        (ws_userId (snd client) = Some R \<or> ws_userId (snd client) = Some S)) cs)"

text \<open>Two sockets open and authenticate as the same user, at times \<open>t1\<close> and
  \<open>t2\<close>.\<close>

definition two_connections :: "Server \<Rightarrow> nat \<Rightarrow> nat \<Rightarrow> string \<Rightarrow> timestamp \<Rightarrow> timestamp \<Rightarrow> Server" where
  "two_connections s c1 c2 U t1 t2 =
     ws_on_message (ws_on_message (ws_connection (ws_connection s c1) c2) t1 c1 (Auth U)) t2 c2 (Auth U)"

section \<open>Example data\<close>

definition mkUser :: "string \<Rightarrow> User" where
  "mkUser uid = \<lparr>u_id = uid, email = None, firstName = None, lastName = None,
                 profileImageUrl = None, u_createdAt = Some 0, u_updatedAt = Some 0\<rparr>"

definition db0 :: DB where
  "db0 = \<lparr>users = [mkUser ''A'', mkUser ''B''], profiles = [], messages = [], likes = [],
          blocks = [], messages_id_seq = 1, likes_id_seq = 1, blocks_id_seq = 1\<rparr>"

definition db_likes :: DB where
  "db_likes = db0\<lparr>likes := [\<lparr>l_id = 1, likerId = ''A'', likedId = ''B'', l_createdAt = 3\<rparr>,
                               \<lparr>l_id = 2, likerId = ''B'', likedId = ''A'', l_createdAt = 4\<rparr>,
                               \<lparr>l_id = 3, likerId = ''A'', likedId = ''B'', l_createdAt = 5\<rparr>],
                     likes_id_seq := 4\<rparr>"

definition db_msgs :: DB where
  "db_msgs = db0\<lparr>messages :=
       [\<lparr>m_id = 1, senderId = ''A'', receiverId = ''B'', content = ''hi'', isRead = Some False, m_createdAt = 3\<rparr>,
        \<lparr>m_id = 2, senderId = ''B'', receiverId = ''A'', content = ''ho'', isRead = Some False, m_createdAt = 4\<rparr>],
     messages_id_seq := 3\<rparr>"

definition db_blocked :: DB where
  "db_blocked = db0\<lparr>blocks := [\<lparr>b_id = 1, blockerId = ''B'', blockedId = ''A'', b_createdAt = 2\<rparr>],
                       blocks_id_seq := 2\<rparr>"

definition profileA :: Profile where
  "profileA = \<lparr>p_id = 1, userId = ''A'', displayName = ''Ann'', isOnline = Some False,
               lastSeen = Some 0, p_updatedAt = Some 0\<rparr>"

definition server0 :: Server where
  "server0 = \<lparr>storage = db0\<lparr>profiles := [profileA]\<rparr>, wss_clients = []\<rparr>"

text \<open>A user who wrote a message to themselves.\<close>

definition userA :: User where "userA = mkUser ''A''"

definition m_self :: Message where
  "m_self = \<lparr>m_id = 1, senderId = ''A'', receiverId = ''A'', content = ''note'', isRead = Some False, m_createdAt = 3\<rparr>"


text \<open>Three messages sent one after the other, and two sent at the same clock reading.\<close>

definition userB :: User where "userB = mkUser ''B''"

definition M1 :: Message where
  "M1 = \<lparr>m_id = 1, senderId = ''A'', receiverId = ''B'', content = ''one'', isRead = Some False, m_createdAt = 5\<rparr>"
definition M2 :: Message where
  "M2 = \<lparr>m_id = 2, senderId = ''B'', receiverId = ''A'', content = ''two'', isRead = Some False, m_createdAt = 6\<rparr>"
definition M3 :: Message where
  "M3 = \<lparr>m_id = 3, senderId = ''A'', receiverId = ''B'', content = ''three'', isRead = Some False, m_createdAt = 7\<rparr>"

definition send :: "string \<Rightarrow> string \<Rightarrow> string \<Rightarrow> InsertMessage" where
  "send S R c = \<lparr>im_senderId = S, im_receiverId = R, im_content = c, im_isRead = None\<rparr>"

definition db_conv :: DB where
  "db_conv = snd (sendMessage (snd (sendMessage (snd (sendMessage db0
       5 (send ''A'' ''B'' ''one''))) 6 (send ''B'' ''A'' ''two''))) 7 (send ''A'' ''B'' ''three''))"

definition T1 :: Message where
  "T1 = \<lparr>m_id = 1, senderId = ''A'', receiverId = ''B'', content = ''one'', isRead = Some False, m_createdAt = 5\<rparr>"
definition T2 :: Message where
  "T2 = \<lparr>m_id = 2, senderId = ''B'', receiverId = ''A'', content = ''two'', isRead = Some False, m_createdAt = 5\<rparr>"

definition db_tie :: DB where
  "db_tie = snd (sendMessage (snd (sendMessage db0 5 (send ''A'' ''B'' ''one''))) 5 (send ''B'' ''A'' ''two''))"

text \<open>An inbox: \<open>A\<close> wrote to \<open>B\<close>, then \<open>C\<close> and \<open>B\<close> wrote to \<open>A\<close>, then
  \<open>B\<close> wrote to \<open>C\<close>; and the rows of \<open>A\<close>, latest first.\<close>

definition userC :: User where "userC = mkUser ''C''"

definition N1 :: Message where
  "N1 = \<lparr>m_id = 1, senderId = ''A'', receiverId = ''B'', content = ''one'', isRead = Some False, m_createdAt = 5\<rparr>"
definition N2 :: Message where
  "N2 = \<lparr>m_id = 2, senderId = ''C'', receiverId = ''A'', content = ''two'', isRead = Some False, m_createdAt = 6\<rparr>"
definition N3 :: Message where
  "N3 = \<lparr>m_id = 3, senderId = ''B'', receiverId = ''A'', content = ''three'', isRead = Some False, m_createdAt = 7\<rparr>"
definition N4 :: Message where
  "N4 = \<lparr>m_id = 4, senderId = ''B'', receiverId = ''C'', content = ''four'', isRead = Some False, m_createdAt = 8\<rparr>"

definition db_inbox :: DB where
  "db_inbox = db0\<lparr>users := [userA, userB, userC], messages := [N1, N2, N3, N4], messages_id_seq := 5\<rparr>"

definition rows_inbox :: "message_row list" where
  "rows_inbox = [(N3, Some userB), (N2, Some userC), (N1, Some userA)]"

text \<open>The rows of \<open>B\<close>, latest first: \<open>B\<close> sent the latest message of each of
  its two conversations.\<close>

definition rows_inbox_B :: "message_row list" where
  "rows_inbox_B = [(N4, Some userB), (N3, Some userB), (N1, Some userA)]"

section \<open>Basic facts\<close>

lemma user_exists_update [simp]:
  "user_exists (db\<lparr>likes_id_seq := n\<rparr>) u = user_exists db u"
  "user_exists (db\<lparr>likes := ls\<rparr>) u = user_exists db u"
  "user_exists (db\<lparr>messages_id_seq := n\<rparr>) u = user_exists db u"
  "user_exists (db\<lparr>messages := ms\<rparr>) u = user_exists db u"
  "user_exists (db\<lparr>profiles := ps\<rparr>) u = user_exists db u"
  "user_exists (db\<lparr>blocks := bs\<rparr>) u = user_exists db u"
  by (simp_all add: user_exists_def)

lemma storable_text_simps [simp]:
  "storable_text []"
  "storable_text (ch # cs) \<longleftrightarrow> ch \<noteq> CHR 0x00 \<and> storable_text cs"
  by (auto simp: storable_text_def)

lemma nul_not_blank: "CHR 0x00 \<notin> {CHR '' '', CHR 0x09, CHR 0x0A, CHR 0x0D}"
  by code_simp

lemma blank_storable:
  assumes "blank c"
  shows "storable_text c"
  unfolding storable_text_def
proof
  assume "CHR 0x00 \<in> set c"
  with assms[unfolded blank_def] have "CHR 0x00 \<in> {CHR '' '', CHR 0x09, CHR 0x0A, CHR 0x0D}"
    by (rule bspec)
  with nul_not_blank show False by (rule notE)
qed

lemma db0_users [simp]: "user_exists db0 ''A''" "user_exists db0 ''B''"
  by (simp_all add: user_exists_def db0_def mkUser_def)

lemma db0_likes [simp]: "likes db0 = []" "like_edges db0 a b = []" "likes_id_seq db0 = 1"
  by (simp_all add: db0_def like_edges_def)

section \<open>Likes and matches\<close>

lemma like_edges_after:
  "likes db' = likes db @ [l] \<Longrightarrow>
   (like_edges db' a b \<noteq> []) = ((likerId l = a \<and> likedId l = b) \<or> like_edges db a b \<noteq> [])"
  by (auto simp: like_edges_def)

lemma like_edges_nonempty:
  "like_edges db a b \<noteq> [] \<longleftrightarrow> (\<exists>l \<in> set (likes db). likerId l = a \<and> likedId l = b)"
  by (auto simp: like_edges_def filter_empty_conv)

lemma addLike_ok:
  assumes "user_exists db a" "user_exists db b"
  shows "addLike db now \<lparr>il_likerId = a, il_likedId = b\<rparr> =
     (Inr \<lparr>l_id = likes_id_seq db, likerId = a, likedId = b, l_createdAt = now\<rparr>,
      db\<lparr>likes_id_seq := Suc (likes_id_seq db),
         likes := likes db @ [\<lparr>l_id = likes_id_seq db, likerId = a, likedId = b, l_createdAt = now\<rparr>]\<rparr>)"
  using assms by (simp add: addLike_def Let_def)

lemma addLike_twice:
  assumes "user_exists db a" "user_exists db b"
  shows "addLike (snd (addLike db t1 \<lparr>il_likerId = a, il_likedId = b\<rparr>)) t2 \<lparr>il_likerId = a, il_likedId = b\<rparr> =
     (Inr \<lparr>l_id = Suc (likes_id_seq db), likerId = a, likedId = b, l_createdAt = t2\<rparr>,
      db\<lparr>likes_id_seq := Suc (Suc (likes_id_seq db)),
         likes := likes db @ [\<lparr>l_id = likes_id_seq db, likerId = a, likedId = b, l_createdAt = t1\<rparr>,
                              \<lparr>l_id = Suc (likes_id_seq db), likerId = a, likedId = b, l_createdAt = t2\<rparr>]\<rparr>)"
  using assms by (simp add: addLike_def Let_def)

lemma mutual_iff:
  "b \<in> set (getMutualLikes db a) \<longleftrightarrow> like_edges db a b \<noteq> [] \<and> like_edges db b a \<noteq> []"
  by (auto simp: getMutualLikes_def like_edges_nonempty)

text \<open>The like route on two existing users: the row it stores, and its answer.\<close>

lemma POST_api_likes_ok:
  assumes "user_exists db A" "user_exists db B" "reqBody ''likedId'' = Some (JStr B)"
  shows "POST_api_likes db now A reqBody =
     (Json \<lparr>like = \<lparr>l_id = likes_id_seq db, likerId = A, likedId = B, l_createdAt = now\<rparr>,
            isMatch = (A = B \<or> like_edges db B A \<noteq> [])\<rparr>,
      db\<lparr>likes_id_seq := Suc (likes_id_seq db),
         likes := likes db @ [\<lparr>l_id = likes_id_seq db, likerId = A, likedId = B, l_createdAt = now\<rparr>]\<rparr>)"
proof -
  let ?l = "\<lparr>l_id = likes_id_seq db, likerId = A, likedId = B, l_createdAt = now\<rparr>"
  let ?db' = "db\<lparr>likes_id_seq := Suc (likes_id_seq db), likes := likes db @ [?l]\<rparr>"
  have p: "insertLikeSchema_parse (reqBody(''likerId'' \<mapsto> JStr A)) = Inr \<lparr>il_likerId = A, il_likedId = B\<rparr>"
    using assms(3) by (simp add: insertLikeSchema_parse_def)
  have lk: "likes ?db' = likes db @ [?l]" by simp
  have e1: "like_edges ?db' A B \<noteq> []"
    using like_edges_after[OF lk, of A B] by simp
  have e2: "like_edges ?db' B A \<noteq> [] \<longleftrightarrow> A = B \<or> like_edges db B A \<noteq> []"
    using like_edges_after[OF lk, of B A] by auto
  show ?thesis
    using e1 e2 by (simp add: POST_api_likes_def p addLike_ok[OF assms(1,2)] mutual_iff)
qed

text \<open>
  Claim C1, as amended. When liker \<open>A\<close> and liked \<open>B\<close> are existing users, the like
  route stores the edge \<open>(A, B)\<close> and answers \<open>isMatch = true\<close> if and only if the
  reverse edge \<open>(B, A)\<close> is in the likes store at the moment of the check. That is
  the case exactly when \<open>B\<close> had liked \<open>A\<close> before, or \<open>A = B\<close>: so with no prior
  edge from \<open>B\<close> and \<open>A \<noteq> B\<close> the answer is false, and after \<open>B\<close> has liked
  \<open>A\<close> it is true.
\<close>

theorem like_isMatch_iff_reverse_edge:
  assumes "user_exists db A" "user_exists db B" "reqBody ''likedId'' = Some (JStr B)"
  shows "\<exists>l db'. POST_api_likes db now A reqBody =
            (Json \<lparr>like = l, isMatch = (like_edges db' B A \<noteq> [])\<rparr>, db')
          \<and> likes db' = likes db @ [l] \<and> likerId l = A \<and> likedId l = B
          \<and> (like_edges db' B A \<noteq> [] \<longleftrightarrow> A = B \<or> like_edges db B A \<noteq> [])"
proof -
  let ?l = "\<lparr>l_id = likes_id_seq db, likerId = A, likedId = B, l_createdAt = now\<rparr>"
  let ?db' = "db\<lparr>likes_id_seq := Suc (likes_id_seq db), likes := likes db @ [?l]\<rparr>"
  have lk: "likes ?db' = likes db @ [?l]" by simp
  have e2: "like_edges ?db' B A \<noteq> [] \<longleftrightarrow> A = B \<or> like_edges db B A \<noteq> []"
    using like_edges_after[OF lk, of B A] by auto
  have "POST_api_likes db now A reqBody = (Json \<lparr>like = ?l, isMatch = (like_edges ?db' B A \<noteq> [])\<rparr>, ?db')"
    unfolding e2 using assms by (rule POST_api_likes_ok)
  with e2 lk show ?thesis by (intro exI[of _ ?l] exI[of _ ?db']) simp
qed

lemma db_likes_facts [simp]:
  "user_exists db_likes ''A''" "user_exists db_likes ''B''"
  "like_edges db_likes ''A'' ''B'' \<noteq> []" "likes_id_seq db_likes = 4"
  by (simp_all add: db_likes_def like_edges_def user_exists_def db0_def mkUser_def)

theorem like_isMatch_iff_reverse_edge_witness:
  "user_exists db0 ''A'' \<and> user_exists db0 ''B'' \<and> like_edges db0 ''B'' ''A'' = [] \<and>
   (\<exists>l db'. POST_api_likes db0 7 ''A'' [''likedId'' \<mapsto> JStr ''B''] = (Json \<lparr>like = l, isMatch = False\<rparr>, db')) \<and>
   user_exists db_likes ''B'' \<and> user_exists db_likes ''A'' \<and> like_edges db_likes ''A'' ''B'' \<noteq> [] \<and>
   (\<exists>l db'. POST_api_likes db_likes 7 ''B'' [''likedId'' \<mapsto> JStr ''A''] = (Json \<lparr>like = l, isMatch = True\<rparr>, db'))"
  using like_isMatch_iff_reverse_edge[of db0 "''A''" "''B''" "[''likedId'' \<mapsto> JStr ''B'']" 7]
    like_isMatch_iff_reverse_edge[of db_likes "''B''" "''A''" "[''likedId'' \<mapsto> JStr ''A'']" 7]
  by auto

text \<open>The claim as written fails where a user likes their own profile: no like is
  stored beforehand, and the route answers \<open>isMatch = true\<close>.\<close>

theorem self_like_is_match_without_prior_edge:
  "like_edges db0 ''A'' ''A'' = [] \<and>
   (\<exists>l db'. POST_api_likes db0 7 ''A'' [''likedId'' \<mapsto> JStr ''A''] = (Json \<lparr>like = l, isMatch = True\<rparr>, db'))"
  using POST_api_likes_ok[of db0 "''A''" "''A''" "[''likedId'' \<mapsto> JStr ''A'']" 7] by simp

text \<open>
  Claim C2, as amended. \<open>addLike\<close> is a plain insert: called twice for the same
  ordered pair of existing users it resolves both times and stores two edges for the
  pair, with different ids; each call adds one edge.
\<close>

theorem addLike_twice_stores_two_edges:
  assumes "user_exists db a" "user_exists db b"
  shows "\<exists>l1 l2 db1 db2.
           addLike db t1 \<lparr>il_likerId = a, il_likedId = b\<rparr> = (Inr l1, db1) \<and>
           addLike db1 t2 \<lparr>il_likerId = a, il_likedId = b\<rparr> = (Inr l2, db2) \<and>
           like_edges db1 a b = like_edges db a b @ [l1] \<and>
           like_edges db2 a b = like_edges db a b @ [l1, l2] \<and>
           l_id l1 \<noteq> l_id l2 \<and>
           length (like_edges db2 a b) = length (like_edges db a b) + 2"
proof -
  let ?i = "\<lparr>il_likerId = a, il_likedId = b\<rparr>"
  let ?l1 = "\<lparr>l_id = likes_id_seq db, likerId = a, likedId = b, l_createdAt = t1\<rparr>"
  let ?l2 = "\<lparr>l_id = Suc (likes_id_seq db), likerId = a, likedId = b, l_createdAt = t2\<rparr>"
  let ?db1 = "snd (addLike db t1 ?i)"
  let ?db2 = "snd (addLike ?db1 t2 ?i)"
  have a1: "addLike db t1 ?i = (Inr ?l1, ?db1)"
    by (simp add: addLike_ok[OF assms])
  have a2: "addLike ?db1 t2 ?i = (Inr ?l2, ?db2)"
    by (simp add: addLike_twice[OF assms])
  have k1: "likes ?db1 = likes db @ [?l1]"
    by (simp add: addLike_ok[OF assms])
  have k2: "likes ?db2 = likes db @ [?l1, ?l2]"
    by (simp add: addLike_twice[OF assms])
  have e1: "like_edges ?db1 a b = like_edges db a b @ [?l1]"
    by (simp add: like_edges_def k1)
  have e2: "like_edges ?db2 a b = like_edges db a b @ [?l1, ?l2]"
    by (simp add: like_edges_def k2)
  have "l_id ?l1 \<noteq> l_id ?l2" by simp
  moreover have "length (like_edges ?db2 a b) = length (like_edges db a b) + 2"
    by (simp add: e2)
  ultimately show ?thesis using a1 a2 e1 e2 by blast
qed

theorem addLike_twice_stores_two_edges_witness:
  "user_exists db0 ''A'' \<and> user_exists db0 ''B'' \<and>
   (\<exists>l1 l2 db1 db2.
           addLike db0 5 \<lparr>il_likerId = ''A'', il_likedId = ''B''\<rparr> = (Inr l1, db1) \<and>
           addLike db1 6 \<lparr>il_likerId = ''A'', il_likedId = ''B''\<rparr> = (Inr l2, db2) \<and>
           like_edges db1 ''A'' ''B'' = like_edges db0 ''A'' ''B'' @ [l1] \<and>
           like_edges db2 ''A'' ''B'' = like_edges db0 ''A'' ''B'' @ [l1, l2] \<and>
           l_id l1 \<noteq> l_id l2 \<and>
           length (like_edges db2 ''A'' ''B'') = length (like_edges db0 ''A'' ''B'') + 2)"
  using addLike_twice_stores_two_edges[of db0 "''A''" "''B''" 5 6] by simp

text \<open>The claim as written fails: the second call is not rejected, and the pair then
  has two stored edges.\<close>

theorem addLike_not_idempotent:
  "like_edges db0 ''A'' ''B'' = [] \<and>
   fst (addLike (snd (addLike db0 5 \<lparr>il_likerId = ''A'', il_likedId = ''B''\<rparr>)) 6
          \<lparr>il_likerId = ''A'', il_likedId = ''B''\<rparr>)
     = Inr \<lparr>l_id = 2, likerId = ''A'', likedId = ''B'', l_createdAt = 6\<rparr> \<and>
   like_edges (snd (addLike (snd (addLike db0 5 \<lparr>il_likerId = ''A'', il_likedId = ''B''\<rparr>)) 6
          \<lparr>il_likerId = ''A'', il_likedId = ''B''\<rparr>)) ''A'' ''B''
     = [\<lparr>l_id = 1, likerId = ''A'', likedId = ''B'', l_createdAt = 5\<rparr>,
        \<lparr>l_id = 2, likerId = ''A'', likedId = ''B'', l_createdAt = 6\<rparr>]"
  using addLike_twice[of db0 "''A''" "''B''" 5 6] by (simp add: like_edges_def)

lemma removeLike_ok:
  "storable_text a \<Longrightarrow> storable_text b \<Longrightarrow>
     removeLike db a b =
       (Inr (), db\<lparr>likes := filter (\<lambda>l. \<not> (likerId l = a \<and> likedId l = b)) (likes db)\<rparr>)"
  by (simp add: removeLike_def)

lemma removeLike_refused:
  "\<not> (storable_text a \<and> storable_text b) \<Longrightarrow> removeLike db a b = (Inl DataException, db)"
  by (simp add: removeLike_def)

lemma filter_none_removed:
  "like_edges db a b = [] \<Longrightarrow> db\<lparr>likes := filter (\<lambda>l. \<not> (likerId l = a \<and> likedId l = b)) (likes db)\<rparr> = db"
proof -
  assume "like_edges db a b = []"
  then have "filter (\<lambda>l. \<not> (likerId l = a \<and> likedId l = b)) (likes db) = likes db"
    by (auto simp: like_edges_def filter_empty_conv filter_id_conv)
  then show ?thesis by simp
qed

text \<open>
  Claim C10, as amended. For every pair of ids that hold no U+0000 character,
  \<open>removeLike\<close> resolves; afterwards no edge of the ordered pair is stored and every
  other edge is, in its place; when the pair had no edge the database is left as it
  was (a silent no-op, not a failure); and the delete route answers with success. An
  id that holds U+0000 is refused by the database: \<open>removeLike\<close> rejects, the
  delete route answers with status 500, and the database is left as it was.
\<close>

theorem removeLike_deletes_pair_silently:
  "(storable_text a \<and> storable_text b \<longrightarrow>
      fst (removeLike db a b) = Inr () \<and>
      like_edges (snd (removeLike db a b)) a b = [] \<and>
      likes (snd (removeLike db a b)) = filter (\<lambda>l. (likerId l, likedId l) \<noteq> (a, b)) (likes db) \<and>
      (like_edges db a b = [] \<longrightarrow> snd (removeLike db a b) = db) \<and>
      DELETE_api_likes db a b = (Json True, snd (removeLike db a b))) \<and>
   (\<not> (storable_text a \<and> storable_text b) \<longrightarrow>
      removeLike db a b = (Inl DataException, db) \<and>
      DELETE_api_likes db a b = (Status500 ''Failed to remove like'', db))"
proof (cases "storable_text a \<and> storable_text b")
  case True
  then have r: "removeLike db a b =
       (Inr (), db\<lparr>likes := filter (\<lambda>l. \<not> (likerId l = a \<and> likedId l = b)) (likes db)\<rparr>)"
    by (simp add: removeLike_ok)
  have "like_edges db a b = [] \<longrightarrow> snd (removeLike db a b) = db"
    using filter_none_removed[of db a b] by (simp add: r)
  moreover have "like_edges (snd (removeLike db a b)) a b = []"
    by (simp add: r like_edges_def)
  moreover have "likes (snd (removeLike db a b)) = filter (\<lambda>l. (likerId l, likedId l) \<noteq> (a, b)) (likes db)"
    by (simp add: r)
  moreover have "DELETE_api_likes db a b = (Json True, snd (removeLike db a b))"
    by (simp add: DELETE_api_likes_def r)
  moreover have "fst (removeLike db a b) = Inr ()" by (simp add: r)
  ultimately show ?thesis using True by blast
next
  case False
  then have r: "removeLike db a b = (Inl DataException, db)" by (rule removeLike_refused)
  then have "DELETE_api_likes db a b = (Status500 ''Failed to remove like'', db)"
    by (simp add: DELETE_api_likes_def)
  with r False show ?thesis by blast
qed

theorem removeLike_deletes_pair_silently_witness:
  "like_edges db0 ''A'' ''B'' = [] \<and> removeLike db0 ''A'' ''B'' = (Inr (), db0) \<and>
   DELETE_api_likes db0 ''A'' ''B'' = (Json True, db0) \<and>
   likes (snd (removeLike db_likes ''A'' ''B'')) = [\<lparr>l_id = 2, likerId = ''B'', likedId = ''A'', l_createdAt = 4\<rparr>] \<and>
   removeLike db_likes ''A'' [CHR ''B'', CHR 0x00] = (Inl DataException, db_likes)"
  using removeLike_deletes_pair_silently[of "''A''" "''B''" db0]
    removeLike_deletes_pair_silently[of "''A''" "''B''" db_likes]
    removeLike_deletes_pair_silently[of "''A''" "[CHR ''B'', CHR 0x00]" db_likes]
  by (auto simp: db_likes_def prod_eq_iff)

text \<open>The claim as written fails on a liked id that holds U+0000, which the delete
  route receives as \<open>/api/likes/%00\<close>: the call rejects and the route answers 500.\<close>

theorem removeLike_rejects_NUL_id:
  "fst (removeLike db0 ''A'' [CHR 0x00]) = Inl DataException \<and>
   DELETE_api_likes db0 ''A'' [CHR 0x00] = (Status500 ''Failed to remove like'', db0)"
  by (simp add: removeLike_def DELETE_api_likes_def)

section \<open>Sending a message\<close>

lemma db0_messages [simp]: "messages db0 = []" "messages_id_seq db0 = 1"
  by (simp_all add: db0_def)

lemma db_blocked_facts [simp]:
  "user_exists db_blocked ''A''" "user_exists db_blocked ''B''"
  "block_exists db_blocked ''B'' ''A''" "messages db_blocked = []" "messages_id_seq db_blocked = 1"
  by (simp_all add: db_blocked_def block_exists_def db0_def user_exists_def mkUser_def)

lemma sendMessage_ok:
  assumes "user_exists db S" "user_exists db R"
    and "storable_text S" "storable_text R" "storable_text c"
  shows "sendMessage db now \<lparr>im_senderId = S, im_receiverId = R, im_content = c, im_isRead = rd\<rparr> =
     (Inr \<lparr>m_id = messages_id_seq db, senderId = S, receiverId = R, content = c,
            isRead = (case rd of None \<Rightarrow> Some False | Some v \<Rightarrow> v), m_createdAt = now\<rparr>,
      db\<lparr>messages_id_seq := Suc (messages_id_seq db),
         messages := messages db @ [\<lparr>m_id = messages_id_seq db, senderId = S, receiverId = R, content = c,
            isRead = (case rd of None \<Rightarrow> Some False | Some v \<Rightarrow> v), m_createdAt = now\<rparr>]\<rparr>)"
  using assms by (simp add: sendMessage_def Let_def)

text \<open>The message route on two existing users and a body with a receiver, a content
  the database can store and an \<open>isRead\<close> that is absent, \<open>null\<close> or a boolean:
  the row it stores, the frames it pushes, and its answer.\<close>

lemma POST_api_messages_ok:
  assumes "user_exists db S" "user_exists db R"
    and "storable_text S" "storable_text R" "storable_text c"
    and "reqBody ''receiverId'' = Some (JStr R)" "reqBody ''content'' = Some (JStr c)"
    and "parse_isRead (reqBody ''isRead'') = Inr rd"
  shows "POST_api_messages db cs now S reqBody =
     (Json \<lparr>m_id = messages_id_seq db, senderId = S, receiverId = R, content = c,
            isRead = (case rd of None \<Rightarrow> Some False | Some v \<Rightarrow> v), m_createdAt = now\<rparr>,
      map (\<lambda>k. (k, \<lparr>m_id = messages_id_seq db, senderId = S, receiverId = R, content = c,
            isRead = (case rd of None \<Rightarrow> Some False | Some v \<Rightarrow> v), m_createdAt = now\<rparr>)) (pushed_to cs S R),
      db\<lparr>messages_id_seq := Suc (messages_id_seq db),
         messages := messages db @ [\<lparr>m_id = messages_id_seq db, senderId = S, receiverId = R, content = c,
            isRead = (case rd of None \<Rightarrow> Some False | Some v \<Rightarrow> v), m_createdAt = now\<rparr>]\<rparr>)"
proof -
  have p: "insertMessageSchema_parse (reqBody(''senderId'' \<mapsto> JStr S)) =
      Inr \<lparr>im_senderId = S, im_receiverId = R, im_content = c, im_isRead = rd\<rparr>"
    using assms(6-8) by (simp add: insertMessageSchema_parse_def)
  show ?thesis
    by (simp add: POST_api_messages_def p sendMessage_ok[OF assms(1-5)] pushed_to_def comp_def)
qed

text \<open>The route never reads the blocks table.\<close>

lemma POST_api_messages_blocks:
  "POST_api_messages (db\<lparr>blocks := bs\<rparr>) cs now S reqBody =
     (case POST_api_messages db cs now S reqBody of (r, p, db') \<Rightarrow> (r, p, db'\<lparr>blocks := bs\<rparr>))"
  by (simp add: POST_api_messages_def sendMessage_def Let_def split: sum.splits)

text \<open>
  Claim C6, as amended. The schema asks of \<open>content\<close> only that it is a string, and
  no \<open>InvalidArgument\<close> outcome exists. For every sender and receiver that exist and
  every content string that is empty or consists only of whitespace, sent in a body
  whose \<open>isRead\<close> is absent, \<open>null\<close> or a boolean, the send-message route answers
  with the persisted message and stores exactly that one message, with the content as
  sent and \<open>isRead\<close> as the body gives it (false when absent).
\<close>

theorem send_persists_blank_content:
  assumes "blank c"
    and "user_exists db S" "user_exists db R" "storable_text S" "storable_text R"
    and "reqBody ''receiverId'' = Some (JStr R)" "reqBody ''content'' = Some (JStr c)"
    and "parse_isRead (reqBody ''isRead'') = Inr rd"
  shows "\<exists>m pushed db'. POST_api_messages db cs now S reqBody = (Json m, pushed, db') \<and>
            messages db' = messages db @ [m] \<and> content m = c \<and> senderId m = S \<and> receiverId m = R
            \<and> isRead m = (case rd of None \<Rightarrow> Some False | Some v \<Rightarrow> v) \<and> m_createdAt m = now"
  by (simp add: POST_api_messages_ok[OF assms(2-5) blank_storable[OF assms(1)] assms(6-8)])

theorem send_persists_blank_content_witness:
  "blank ''  '' \<and> user_exists db0 ''A'' \<and> user_exists db0 ''B'' \<and>
   storable_text ''A'' \<and> storable_text ''B'' \<and>
   parse_isRead ([''receiverId'' \<mapsto> JStr ''B'', ''content'' \<mapsto> JStr ''  '', ''isRead'' \<mapsto> JBool True] ''isRead'')
     = Inr (Some (Some True)) \<and>
   (\<exists>m pushed db'. POST_api_messages db0 [] 9 ''A''
          [''receiverId'' \<mapsto> JStr ''B'', ''content'' \<mapsto> JStr ''  '', ''isRead'' \<mapsto> JBool True]
        = (Json m, pushed, db') \<and>
            messages db' = messages db0 @ [m] \<and> content m = ''  '' \<and> senderId m = ''A'' \<and> receiverId m = ''B''
            \<and> isRead m = Some True \<and> m_createdAt m = 9)"
  using send_persists_blank_content[of "''  ''" db0 "''A''" "''B''"
      "[''receiverId'' \<mapsto> JStr ''B'', ''content'' \<mapsto> JStr ''  '', ''isRead'' \<mapsto> JBool True]"
      "Some (Some True)" "[]" 9]
  by (simp add: blank_def parse_isRead_def)

text \<open>The claim as written fails: an empty content is answered with the stored row,
  and the row is in the table.\<close>

theorem empty_content_is_persisted:
  "blank [] \<and>
   fst (POST_api_messages db0 [] 9 ''A'' [''receiverId'' \<mapsto> JStr ''B'', ''content'' \<mapsto> JStr []])
     = Json \<lparr>m_id = 1, senderId = ''A'', receiverId = ''B'', content = [], isRead = Some False, m_createdAt = 9\<rparr> \<and>
   messages (snd (snd (POST_api_messages db0 [] 9 ''A'' [''receiverId'' \<mapsto> JStr ''B'', ''content'' \<mapsto> JStr []])))
     = [\<lparr>m_id = 1, senderId = ''A'', receiverId = ''B'', content = [], isRead = Some False, m_createdAt = 9\<rparr>]"
  using POST_api_messages_ok[of db0 "''A''" "''B''" "[]"
      "[''receiverId'' \<mapsto> JStr ''B'', ''content'' \<mapsto> JStr []]" None "[]" 9]
  by (simp add: blank_def parse_isRead_def)

text \<open>
  Claim C7, as amended. The send-message route does not consult the blocks table. For
  every sender and receiver that exist, with a block edge between them in either
  direction, a request that is valid otherwise (a content without U+0000; \<open>isRead\<close>
  absent, \<open>null\<close> or a boolean) is stored and answered with the stored message; and
  the answer, the frames pushed and the stored messages are the same on the database
  with any other set of block edges, none included.
\<close>

theorem send_ignores_blocks:
  assumes "user_exists db S" "user_exists db R" "storable_text S" "storable_text R"
    and "reqBody ''receiverId'' = Some (JStr R)" "reqBody ''content'' = Some (JStr c)"
    and "storable_text c" "parse_isRead (reqBody ''isRead'') = Inr rd"
    and "block_exists db S R \<or> block_exists db R S"
  shows "\<exists>m pushed db'. POST_api_messages db cs now S reqBody = (Json m, pushed, db') \<and>
            messages db' = messages db @ [m] \<and> content m = c \<and> senderId m = S \<and> receiverId m = R \<and>
            blocks db' = blocks db \<and>
            POST_api_messages (db\<lparr>blocks := bs\<rparr>) cs now S reqBody = (Json m, pushed, db'\<lparr>blocks := bs\<rparr>)"
  by (simp add: POST_api_messages_blocks POST_api_messages_ok[OF assms(1-4) assms(7) assms(5,6) assms(8)])

theorem send_ignores_blocks_witness:
  "user_exists db_blocked ''A'' \<and> user_exists db_blocked ''B'' \<and> block_exists db_blocked ''B'' ''A'' \<and>
   storable_text ''A'' \<and> storable_text ''B'' \<and> storable_text ''x'' \<and>
   (\<exists>m pushed db'. POST_api_messages db_blocked [] 9 ''A'' [''receiverId'' \<mapsto> JStr ''B'', ''content'' \<mapsto> JStr ''x'']
        = (Json m, pushed, db') \<and>
            messages db' = messages db_blocked @ [m] \<and> content m = ''x'' \<and> senderId m = ''A'' \<and> receiverId m = ''B'' \<and>
            POST_api_messages (db_blocked\<lparr>blocks := []\<rparr>) [] 9 ''A''
                [''receiverId'' \<mapsto> JStr ''B'', ''content'' \<mapsto> JStr ''x'']
              = (Json m, pushed, db'\<lparr>blocks := []\<rparr>))"
  using send_ignores_blocks[of db_blocked "''A''" "''B''"
      "[''receiverId'' \<mapsto> JStr ''B'', ''content'' \<mapsto> JStr ''x'']" "''x''" None "[]" 9 "[]"]
  by (auto simp: parse_isRead_def)

text \<open>The claim as written fails: \<open>B\<close> has blocked \<open>A\<close>, and the message of \<open>A\<close>
  to \<open>B\<close> is answered with the stored row and is in the table.\<close>

theorem blocked_sender_message_is_persisted:
  "block_exists db_blocked ''B'' ''A'' \<and>
   fst (POST_api_messages db_blocked [] 9 ''A'' [''receiverId'' \<mapsto> JStr ''B'', ''content'' \<mapsto> JStr ''x''])
     = Json \<lparr>m_id = 1, senderId = ''A'', receiverId = ''B'', content = ''x'', isRead = Some False, m_createdAt = 9\<rparr> \<and>
   messages (snd (snd (POST_api_messages db_blocked [] 9 ''A'' [''receiverId'' \<mapsto> JStr ''B'', ''content'' \<mapsto> JStr ''x''])))
     = [\<lparr>m_id = 1, senderId = ''A'', receiverId = ''B'', content = ''x'', isRead = Some False, m_createdAt = 9\<rparr>]"
  using POST_api_messages_ok[of db_blocked "''A''" "''B''" "''x''"
      "[''receiverId'' \<mapsto> JStr ''B'', ''content'' \<mapsto> JStr ''x'']" None "[]" 9]
  by (simp add: parse_isRead_def)

section \<open>Read receipts\<close>

lemma markRead_other:
  assumes "\<forall>m \<in> set ms. int (m_id m) = mid \<longrightarrow> receiverId m \<noteq> a"
  shows "map (\<lambda>m. if int (m_id m) = mid \<and> receiverId m = a then m\<lparr>isRead := Some True\<rparr> else m) ms = ms"
  using assms by (induction ms) auto

lemma markRead_receiver:
  assumes "distinct (map m_id ms)" "M \<in> set ms" "receiverId M = a"
  shows "map (\<lambda>m. if m_id m = m_id M \<and> receiverId m = a then m\<lparr>isRead := Some True\<rparr> else m) ms
       = map (\<lambda>m. if m = M then M\<lparr>isRead := Some True\<rparr> else m) ms"
proof (rule map_cong[OF refl])
  fix m assume "m \<in> set ms"
  with assms(1,2) have "m_id m = m_id M \<longleftrightarrow> m = M"
    by (meson distinct_map inj_on_eq_iff)
  with assms(3) show "(if m_id m = m_id M \<and> receiverId m = a then m\<lparr>isRead := Some True\<rparr> else m)
      = (if m = M then M\<lparr>isRead := Some True\<rparr> else m)" by auto
qed

text \<open>
  Claim C8, as amended. Called with the id of a stored message \<open>M\<close> by its receiver,
  \<open>markMessageAsRead\<close> sets \<open>isRead\<close> of \<open>M\<close> to true and changes nothing else (ids
  are the primary key). Called by anyone who is not the receiver of the message with
  that id, it leaves the whole database, \<open>M\<close> included, as it was, and never fails
  with \<open>Forbidden\<close>: it resolves as a silent no-op, unless the database refuses a
  parameter (a caller id that holds U+0000, a message id outside the 32-bit range),
  in which case it rejects with that data exception.
\<close>

theorem markMessageAsRead_receiver_only:
  "fst (markMessageAsRead db mid a) = (if int4 mid \<and> storable_text a then Inr () else Inl DataException) \<and>
   ((\<forall>m \<in> set (messages db). int (m_id m) = mid \<longrightarrow> receiverId m \<noteq> a) \<longrightarrow>
      snd (markMessageAsRead db mid a) = db) \<and>
   (\<not> (int4 mid \<and> storable_text a) \<longrightarrow> snd (markMessageAsRead db mid a) = db) \<and>
   (distinct (map m_id (messages db)) \<and> M \<in> set (messages db) \<and> receiverId M = a \<and>
    storable_text a \<and> int4 (int (m_id M)) \<longrightarrow>
      markMessageAsRead db (int (m_id M)) a =
        (Inr (), db\<lparr>messages := map (\<lambda>m. if m = M then M\<lparr>isRead := Some True\<rparr> else m) (messages db)\<rparr>))"
proof -
  have c1: "fst (markMessageAsRead db mid a) = (if int4 mid \<and> storable_text a then Inr () else Inl DataException)"
    by (simp add: markMessageAsRead_def)
  have c2: "snd (markMessageAsRead db mid a) = db"
    if "\<forall>m \<in> set (messages db). int (m_id m) = mid \<longrightarrow> receiverId m \<noteq> a"
    using markRead_other[OF that] by (simp add: markMessageAsRead_def)
  have c3: "snd (markMessageAsRead db mid a) = db" if "\<not> (int4 mid \<and> storable_text a)"
    unfolding markMessageAsRead_def by (simp only: if_not_P[OF that] snd_conv)
  have c4: "markMessageAsRead db (int (m_id M)) a =
        (Inr (), db\<lparr>messages := map (\<lambda>m. if m = M then M\<lparr>isRead := Some True\<rparr> else m) (messages db)\<rparr>)"
    if "distinct (map m_id (messages db))" "M \<in> set (messages db)" "receiverId M = a"
      "storable_text a" "int4 (int (m_id M))"
    using markRead_receiver[OF that(1-3)] that(4,5) by (simp add: markMessageAsRead_def)
  from c1 c2 c3 c4 show ?thesis by blast
qed

theorem markMessageAsRead_receiver_only_witness:
  "markMessageAsRead db_msgs 1 ''A'' = (Inr (), db_msgs) \<and>
   fst (markMessageAsRead db_msgs 1 ''B'') = Inr () \<and>
   messages (snd (markMessageAsRead db_msgs 1 ''B'')) =
       [\<lparr>m_id = 1, senderId = ''A'', receiverId = ''B'', content = ''hi'', isRead = Some True, m_createdAt = 3\<rparr>,
        \<lparr>m_id = 2, senderId = ''B'', receiverId = ''A'', content = ''ho'', isRead = Some False, m_createdAt = 4\<rparr>] \<and>
   markMessageAsRead db_msgs 2147483648 ''B'' = (Inl DataException, db_msgs) \<and>
   markMessageAsRead db_msgs 1 [CHR 0x00] = (Inl DataException, db_msgs)"
  using markMessageAsRead_receiver_only[of db_msgs 1 "''A''"]
    markMessageAsRead_receiver_only[of db_msgs 1 "''B''"
      "\<lparr>m_id = 1, senderId = ''A'', receiverId = ''B'', content = ''hi'', isRead = Some False, m_createdAt = 3\<rparr>"]
    markMessageAsRead_receiver_only[of db_msgs 2147483648 "''B''"]
    markMessageAsRead_receiver_only[of db_msgs 1 "[CHR 0x00]"]
  by (simp add: db_msgs_def int4_def prod_eq_iff)

text \<open>The claim as written fails: the receiver of message 1 is \<open>B\<close>, and the call
  by \<open>A\<close> resolves instead of failing with \<open>Forbidden\<close>.\<close>

theorem markMessageAsRead_by_other_does_not_fail:
  "map receiverId (filter (\<lambda>m. m_id m = 1) (messages db_msgs)) = [''B''] \<and>
   fst (markMessageAsRead db_msgs 1 ''A'') = Inr ()"
  by (simp add: db_msgs_def markMessageAsRead_def int4_def)

section \<open>Presence\<close>

lemma presence_updateOnlineStatus:
  "presence (snd (updateOnlineStatus db now U b)) U = map (\<lambda>_. (Some b, Some now)) (presence db U)"
proof -
  have "map (\<lambda>p. (isOnline p, lastSeen p)) (filter (\<lambda>p. userId p = U)
          (map (\<lambda>p. if userId p = U then p\<lparr>isOnline := Some b, lastSeen := Some now, p_updatedAt := Some now\<rparr> else p) ps))
        = map (\<lambda>_. (Some b, Some now)) (map (\<lambda>p. (isOnline p, lastSeen p)) (filter (\<lambda>p. userId p = U) ps))" for ps
    by (induction ps) auto
  then show ?thesis by (simp add: presence_def updateOnlineStatus_def)
qed

lemma map_of_rebind:
  "map_of (map (\<lambda>client. if fst client = c then (c, f (snd client)) else client) cs) k
     = (if k = c then map_option f (map_of cs c) else map_of cs k)"
  by (induction cs) auto

lemma map_of_drop:
  "map_of (filter (\<lambda>client. fst client \<noteq> c) cs) k = (if k = c then None else map_of cs k)"
  by (induction cs) auto

lemma map_of_fresh: "c \<notin> fst ` set cs \<Longrightarrow> map_of cs c = None"
  by (simp add: map_of_eq_None_iff)

lemma ws_on_close_authenticated:
  assumes "map_of (wss_clients s) c = Some w" "ws_userId w = Some U" "U \<noteq> []"
  shows "storage (ws_on_close s now c) = snd (updateOnlineStatus (storage s) now U False)"
    and "map_of (wss_clients (ws_on_close s now c)) k = (if k = c then None else map_of (wss_clients s) k)"
  using assms by (simp_all add: ws_on_close_def Let_def map_of_drop)

lemma ws_connection_lookup:
  "map_of (wss_clients (ws_connection s c)) k =
     (case map_of (wss_clients s) k of
        Some w \<Rightarrow> Some w
      | None \<Rightarrow> if k = c then Some \<lparr>ws_userId = None, readyState_OPEN = True\<rparr> else None)"
  by (simp add: ws_connection_def map_add_def split: option.splits)

lemma ws_on_message_auth_lookup:
  "map_of (wss_clients (ws_on_message s t c (Auth u))) k =
     (if k = c then map_option (\<lambda>w. w\<lparr>ws_userId := Some u\<rparr>) (map_of (wss_clients s) c)
      else map_of (wss_clients s) k)"
  by (simp add: ws_on_message_def map_of_rebind)

lemma two_connections_clients:
  assumes "c1 \<noteq> c2" "c1 \<notin> fst ` set (wss_clients s)" "c2 \<notin> fst ` set (wss_clients s)"
  shows "map_of (wss_clients (two_connections s c1 c2 U t1 t2)) c1 = Some \<lparr>ws_userId = Some U, readyState_OPEN = True\<rparr>"
    and "map_of (wss_clients (two_connections s c1 c2 U t1 t2)) c2 = Some \<lparr>ws_userId = Some U, readyState_OPEN = True\<rparr>"
  using assms
  by (simp_all add: two_connections_def ws_on_message_auth_lookup ws_connection_lookup map_of_fresh)

lemma two_connections_presence:
  "presence (storage (two_connections s c1 c2 U t1 t2)) U = map (\<lambda>_. (Some True, Some t2)) (presence (storage s) U)"
  by (simp add: two_connections_def ws_on_message_def ws_connection_def presence_updateOnlineStatus comp_def)

text \<open>
  Claim C3, as amended. The close handler counts no connections. For every user \<open>U\<close>
  with two live authenticated connections \<open>c1\<close> and \<open>c2\<close>, the persisted presence
  of \<open>U\<close> is online after the two authentications; closing \<open>c1\<close> alone, while
  \<open>c2\<close> is still live and bound to \<open>U\<close>, already writes \<open>U\<close> offline with
  \<open>lastSeen\<close> the time of that close; closing \<open>c2\<close> writes offline again. Over
  the close sequence the flag goes from online to offline once, at the first close, and
  \<open>lastSeen\<close> ends as the time of the last close.
\<close>

theorem close_one_connection_sets_offline:
  assumes "c1 \<noteq> c2" "c1 \<notin> fst ` set (wss_clients s)" "c2 \<notin> fst ` set (wss_clients s)" "U \<noteq> []"
  shows "presence (storage (two_connections s c1 c2 U t1 t2)) U
           = map (\<lambda>_. (Some True, Some t2)) (presence (storage s) U) \<and>
         map_of (wss_clients (ws_on_close (two_connections s c1 c2 U t1 t2) t3 c1)) c2
           = Some \<lparr>ws_userId = Some U, readyState_OPEN = True\<rparr> \<and>
         presence (storage (ws_on_close (two_connections s c1 c2 U t1 t2) t3 c1)) U
           = map (\<lambda>_. (Some False, Some t3)) (presence (storage s) U) \<and>
         presence (storage (ws_on_close (ws_on_close (two_connections s c1 c2 U t1 t2) t3 c1) t4 c2)) U
           = map (\<lambda>_. (Some False, Some t4)) (presence (storage s) U)"
proof -
  let ?s2 = "two_connections s c1 c2 U t1 t2"
  let ?w = "\<lparr>ws_userId = Some U, readyState_OPEN = True\<rparr>"
  let ?s3 = "ws_on_close ?s2 t3 c1"
  have w1: "map_of (wss_clients ?s2) c1 = Some ?w" and w2: "map_of (wss_clients ?s2) c2 = Some ?w"
    using assms(1-3) by (rule two_connections_clients)+
  have u: "ws_userId ?w = Some U" by simp
  have p2: "presence (storage ?s2) U = map (\<lambda>_. (Some True, Some t2)) (presence (storage s) U)"
    by (rule two_connections_presence)
  have c3: "map_of (wss_clients ?s3) c2 = Some ?w"
    using ws_on_close_authenticated(2)[OF w1 u assms(4), of t3 c2] w2 assms(1) by simp
  have p3: "presence (storage ?s3) U = map (\<lambda>_. (Some False, Some t3)) (presence (storage s) U)"
    by (simp add: ws_on_close_authenticated(1)[OF w1 u assms(4)] presence_updateOnlineStatus p2 comp_def)
  have p4: "presence (storage (ws_on_close ?s3 t4 c2)) U = map (\<lambda>_. (Some False, Some t4)) (presence (storage s) U)"
    by (simp add: ws_on_close_authenticated(1)[OF c3 u assms(4)] presence_updateOnlineStatus p3 comp_def)
  from p2 c3 p3 p4 show ?thesis by simp
qed

lemma server0_facts [simp]: "wss_clients server0 = []" "presence (storage server0) ''A'' = [(Some False, Some 0)]"
  by (simp_all add: server0_def presence_def profileA_def)

theorem close_one_connection_sets_offline_witness:
  "(1::nat) \<noteq> 2 \<and> ''A'' \<noteq> [] \<and> wss_clients server0 = [] \<and>
   presence (storage (two_connections server0 1 2 ''A'' 10 11)) ''A'' = [(Some True, Some 11)] \<and>
   presence (storage (ws_on_close (two_connections server0 1 2 ''A'' 10 11) 12 1)) ''A'' = [(Some False, Some 12)] \<and>
   presence (storage (ws_on_close (ws_on_close (two_connections server0 1 2 ''A'' 10 11) 12 1) 13 2)) ''A''
      = [(Some False, Some 13)]"
  using close_one_connection_sets_offline[of 1 2 server0 "''A''" 10 11 12 13] by simp

text \<open>The claim as written fails: after the first close the second socket is still
  in \<open>wss.clients\<close>, bound to the user, and the user's profile says offline.\<close>

theorem first_close_sets_offline_while_second_is_live:
  "map_of (wss_clients (ws_on_close (two_connections server0 1 2 ''A'' 10 11) 12 1)) 2
      = Some \<lparr>ws_userId = Some ''A'', readyState_OPEN = True\<rparr> \<and>
   presence (storage (ws_on_close (two_connections server0 1 2 ''A'' 10 11) 12 1)) ''A'' = [(Some False, Some 12)]"
proof -
  have w1: "map_of (wss_clients (two_connections server0 1 2 ''A'' 10 11)) 1 = Some \<lparr>ws_userId = Some ''A'', readyState_OPEN = True\<rparr>"
    and w2: "map_of (wss_clients (two_connections server0 1 2 ''A'' 10 11)) 2 = Some \<lparr>ws_userId = Some ''A'', readyState_OPEN = True\<rparr>"
    by (simp_all add: two_connections_clients)
  show ?thesis
    using ws_on_close_authenticated[OF w1, of "''A''" 12] w2
    by (simp add: presence_updateOnlineStatus two_connections_presence)
qed

section \<open>Conversations\<close>

lemma withUsers_simps [simp]:
  "m_id (withUsers row) = m_id (fst row)"
  "senderId (withUsers row) = senderId (fst row)"
  "receiverId (withUsers row) = receiverId (fst row)"
  "content (withUsers row) = content (fst row)"
  "isRead (withUsers row) = isRead (fst row)"
  "m_createdAt (withUsers row) = m_createdAt (fst row)"
  "sender (withUsers row) = snd row"
  "receiver (withUsers row) = snd row"
  "Message.truncate (withUsers row) = fst row"
  by (simp_all add: withUsers_def Message.truncate_def)

lemma otherUserId_withUsers [simp]: "otherUserId uid (withUsers row) = otherUserId uid (fst row)"
  by (simp add: otherUserId_def)

lemma involves_withUsers [simp]: "involves uid (withUsers row) = involves uid (fst row)"
  by (simp add: involves_def)

lemma leftJoin_users_row:
  assumes "row \<in> set (leftJoin_users db m)"
  shows "fst row = m" and "snd row = Some u \<Longrightarrow> u \<in> set (users db) \<and> u_id u = senderId m"
proof -
  show "fst row = m"
    using assms by (auto simp: leftJoin_users_def split: list.splits)
  assume s: "snd row = Some u"
  have "u \<in> set (filter (\<lambda>u. u_id u = senderId m) (users db))"
    using assms s by (cases "filter (\<lambda>u. u_id u = senderId m) (users db)") (auto simp: leftJoin_users_def)
  then show "u \<in> set (users db) \<and> u_id u = senderId m" by simp
qed

lemma leftJoin_users_nonempty: "leftJoin_users db m \<noteq> []"
  by (simp add: leftJoin_users_def split: list.splits)

lemma fst_leftJoin_users: "fst ` set (leftJoin_users db m) = {m}"
  by (cases "filter (\<lambda>u. u_id u = senderId m) (users db)")
    (auto simp: leftJoin_users_def image_image)

lemma joined_rows:
  "row \<in> set (concat (map (leftJoin_users db) ms)) \<Longrightarrow>
     fst row \<in> set ms \<and> (\<forall>u. snd row = Some u \<longrightarrow> u \<in> set (users db) \<and> u_id u = senderId (fst row))"
  using leftJoin_users_row by fastforce

lemma fst_joined_rows: "fst ` set (concat (map (leftJoin_users db) ms)) = set ms"
proof -
  have "fst ` set (concat (map (leftJoin_users db) ms)) = (\<Union>m \<in> set ms. fst ` set (leftJoin_users db m))"
    by auto
  then show ?thesis by (simp add: fst_leftJoin_users)
qed

text \<open>With the primary key on users, the join gives one row per message.\<close>

lemma filter_key_find:
  "distinct (map u_id us) \<Longrightarrow>
     filter (\<lambda>u. u_id u = k) us = (case find (\<lambda>u. u_id u = k) us of None \<Rightarrow> [] | Some u \<Rightarrow> [u])"
proof (induction us)
  case Nil
  then show ?case by simp
next
  case (Cons u us)
  show ?case
  proof (cases "u_id u = k")
    case True
    with Cons.prems have "\<forall>x \<in> set us. u_id x \<noteq> k" by (auto simp: image_iff)
    then have "filter (\<lambda>u. u_id u = k) us = []" by (simp add: filter_empty_conv)
    with True show ?thesis by simp
  next
    case False
    with Cons show ?thesis by simp
  qed
qed

lemma leftJoin_users_pkey:
  "distinct (map u_id (users db)) \<Longrightarrow>
     leftJoin_users db m = [(m, find (\<lambda>u. u_id u = senderId m) (users db))]"
  by (simp add: leftJoin_users_def filter_key_find split: option.splits)

lemma joined_rows_pkey:
  "distinct (map u_id (users db)) \<Longrightarrow>
     concat (map (leftJoin_users db) ms) = map (\<lambda>m. (m, find (\<lambda>u. u_id u = senderId m) (users db))) ms"
  by (induction ms) (simp_all add: leftJoin_users_pkey)

lemma in_conversation_iff:
  "{senderId m, receiverId m} = {a, b} \<longleftrightarrow>
     (senderId m = a \<and> receiverId m = b) \<or> (senderId m = b \<and> receiverId m = a)"
  by (auto simp: doubleton_eq_iff)

lemma getConversation_rows_pkey:
  assumes "distinct (map u_id (users db))"
  shows "map fst (getConversation_rows db a b) = conversation db a b"
  by (simp add: getConversation_rows_def joined_rows_pkey[OF assms] conversation_def
      in_conversation_iff filter_map comp_def)

text \<open>The loop over the rows, one step at a time, and what it keeps.\<close>

lemma loop_step_new:
  "map_of cm (otherUserId uid (fst r)) = None \<Longrightarrow>
     conversationMap_loop uid (r # rows) cm =
       conversationMap_loop uid rows (cm @ [(otherUserId uid (fst r), withUsers r)])"
  by simp

lemma loop_step_old:
  "map_of cm (otherUserId uid (fst r)) \<noteq> None \<Longrightarrow>
     conversationMap_loop uid (r # rows) cm = conversationMap_loop uid rows cm"
  by (simp del: not_None_eq)

lemma loop_keys:
  "fst ` set (conversationMap_loop uid rows cm) = fst ` set cm \<union> (\<lambda>r. otherUserId uid (fst r)) ` set rows"
  by (induction rows arbitrary: cm) (auto simp: map_of_eq_None_iff image_Un)

lemma loop_distinct:
  "distinct (map fst cm) \<Longrightarrow> distinct (map fst (conversationMap_loop uid rows cm))"
  by (induction rows arbitrary: cm) (auto simp: map_of_eq_None_iff)

lemma loop_entries:
  "(k, e) \<in> set (conversationMap_loop uid rows cm) \<Longrightarrow>
     (k, e) \<in> set cm \<or> (k \<notin> fst ` set cm \<and> (\<exists>r \<in> set rows. k = otherUserId uid (fst r) \<and> e = withUsers r))"
proof (induction rows arbitrary: cm)
  case Nil
  then show ?case by simp
next
  case (Cons r rows)
  let ?k = "otherUserId uid (fst r)"
  show ?case
  proof (cases "map_of cm ?k = None")
    case True
    with Cons.prems have "(k, e) \<in> set (conversationMap_loop uid rows (cm @ [(?k, withUsers r)]))"
      by simp
    from Cons.IH[OF this] True show ?thesis
      by (auto simp: map_of_eq_None_iff)
  next
    case False
    with Cons.prems have "(k, e) \<in> set (conversationMap_loop uid rows cm)"
      by (simp only: loop_step_old[OF False])
    from Cons.IH[OF this] show ?thesis by auto
  qed
qed

lemma loop_latest:
  assumes "sorted_wrt (\<lambda>a b. b \<le> a) (map (\<lambda>r. m_createdAt (fst r)) rows)"
    and "(k, e) \<in> set (conversationMap_loop uid rows cm)" and "k \<notin> fst ` set cm"
  shows "\<forall>r \<in> set rows. otherUserId uid (fst r) = k \<longrightarrow> m_createdAt (fst r) \<le> m_createdAt e"
  using assms
proof (induction rows arbitrary: cm)
  case Nil
  then show ?case by simp
next
  case (Cons r rows)
  let ?k = "otherUserId uid (fst r)"
  have srt: "sorted_wrt (\<lambda>a b. b \<le> a) (map (\<lambda>r. m_createdAt (fst r)) rows)"
    and top: "\<forall>r' \<in> set rows. m_createdAt (fst r') \<le> m_createdAt (fst r)"
    using Cons.prems(1) by auto
  show ?case
  proof (cases "map_of cm ?k = None")
    case False
    then have "?k \<in> fst ` set cm" by (simp add: map_of_eq_None_iff)
    with Cons.prems(3) have ne: "?k \<noteq> k" by auto
    from Cons.prems(2) have "(k, e) \<in> set (conversationMap_loop uid rows cm)"
      by (simp only: loop_step_old[OF False])
    from Cons.IH[OF srt this Cons.prems(3)] ne show ?thesis by auto
  next
    case True
    let ?cm' = "cm @ [(?k, withUsers r)]"
    from True Cons.prems(2) have mem: "(k, e) \<in> set (conversationMap_loop uid rows ?cm')" by simp
    show ?thesis
    proof (cases "?k = k")
      case False
      with Cons.prems(3) have "k \<notin> fst ` set ?cm'" by auto
      from Cons.IH[OF srt mem this] False show ?thesis by auto
    next
      case True
      then have "k \<in> fst ` set ?cm'" by auto
      with loop_entries[OF mem] have "(k, e) \<in> set ?cm'" by blast
      with Cons.prems(3) have "e = withUsers r" by (auto simp: rev_image_eqI)
      with top show ?thesis by auto
    qed
  qed
qed

lemma loop_sorted:
  "sorted_wrt (\<lambda>a b. b \<le> a) (map (\<lambda>p. m_createdAt (snd p)) cm @ map (\<lambda>r. m_createdAt (fst r)) rows) \<Longrightarrow>
   sorted_wrt (\<lambda>a b. b \<le> a) (map (\<lambda>p. m_createdAt (snd p)) (conversationMap_loop uid rows cm))"
proof (induction rows arbitrary: cm)
  case Nil
  then show ?case by simp
next
  case (Cons r rows)
  show ?case
  proof (cases "map_of cm (otherUserId uid (fst r)) = None")
    case True
    with Cons.prems Cons.IH[of "cm @ [(otherUserId uid (fst r), withUsers r)]"] show ?thesis by simp
  next
    case False
    from Cons.prems have "sorted_wrt (\<lambda>a b. b \<le> a) (map (\<lambda>p. m_createdAt (snd p)) cm @ map (\<lambda>r. m_createdAt (fst r)) rows)"
      by (auto simp: sorted_wrt_append)
    with Cons.IH[of cm] show ?thesis by (simp only: loop_step_old[OF False])
  qed
qed

lemma select_set:
  "getConversation_select db a b result \<Longrightarrow> set result = set (getConversation_rows db a b)"
  "getConversations_select db uid rows \<Longrightarrow> set rows = set (getConversations_rows db uid)"
  by (auto simp: getConversation_select_def getConversations_select_def orderBy_asc_def orderBy_desc_def
      dest: mset_eq_setD)

lemma row_user:
  assumes "row \<in> set (getConversation_rows db a b) \<or> row \<in> set (getConversations_rows db uid)"
  shows "\<forall>u. snd row = Some u \<longrightarrow> u \<in> set (users db) \<and> u_id u = senderId (fst row)"
  using assms joined_rows[of row db "messages db"]
  by (auto simp: getConversation_rows_def getConversations_rows_def)

lemma getConversations_return_entries:
  "e \<in> set (getConversations_return uid rows) \<Longrightarrow> \<exists>r \<in> set rows. e = withUsers r"
  by (auto simp: getConversations_return_def dest!: loop_entries)




lemma m_self_simps [simp]:
  "senderId m_self = ''A''" "receiverId m_self = ''A''" "u_id userA = ''A''"
  by (simp_all add: m_self_def userA_def mkUser_def)



lemma filter_same_key:
  "distinct (map f xs) \<Longrightarrow> k \<in> set xs \<Longrightarrow> filter (\<lambda>x. f k = f x) xs = [k]"
proof (induction xs)
  case Nil
  then show ?case by simp
next
  case (Cons x xs)
  show ?case
  proof (cases "k = x")
    case True
    with Cons.prems have "\<forall>y \<in> set xs. f x \<noteq> f y" by (auto simp: image_iff)
    then have "filter (\<lambda>y. f x = f y) xs = []" by (simp add: filter_empty_conv)
    with True show ?thesis by simp
  next
    case False
    with Cons.prems have "k \<in> set xs" "f k \<noteq> f x" by (auto simp: image_iff)
    with Cons show ?thesis by simp
  qed
qed

lemma sorted_perm_distinct_keys:
  assumes "mset ys = mset xs" "sorted (map f ys)" "distinct (map f xs)"
  shows "ys = sort_key f xs"
proof -
  have "mset (map f ys) = mset (map f xs)" using assms(1) by simp
  then have d: "distinct (map f ys)" using assms(3) by (metis mset_eq_imp_distinct_iff)
  have s: "set ys = set xs" using assms(1) by (rule mset_eq_setD)
  have "sort_key f xs = ys"
  proof (rule properties_for_sort_key[OF assms(1) _ assms(2)])
    fix k assume "k \<in> set ys"
    then show "filter (\<lambda>x. f k = f x) ys = filter (\<lambda>x. f k = f x) xs"
      using filter_same_key[OF d, of k] filter_same_key[OF assms(3), of k] s by simp
  qed
  then show ?thesis by simp
qed

lemma getConversation_return_truncate:
  "map Message.truncate (getConversation_return result) = map fst result"
  "map m_createdAt (getConversation_return result) = map (\<lambda>row. m_createdAt (fst row)) result"
  by (simp_all add: getConversation_return_def)

lemma getConversation_select_sort:
  "getConversation_select db a b (sort_key (\<lambda>row. m_createdAt (fst row)) (getConversation_rows db a b))"
  by (simp add: getConversation_select_def orderBy_asc_def)

text \<open>
  Claim C4, as amended. For every pair of users \<open>A\<close> and \<open>B\<close>, every result
  of the conversation query holds exactly the messages whose sender and receiver are
  \<open>{A, B}\<close>, each once, in ascending order of \<open>createdAt\<close>; the query orders by
  \<open>createdAt\<close> alone, so the order of messages of equal \<open>createdAt\<close> is not
  fixed. When the messages of the conversation have different \<open>createdAt\<close> the
  result is determined, and when moreover \<open>createdAt\<close> grows with the order of
  insertion it is the conversation in the order of insertion: \<open>[M1, M2, M3]\<close> for
  \<open>M1\<close>, \<open>M2\<close>, \<open>M3\<close> sent in that order at increasing times. The query always
  has a result.
\<close>

theorem getConversation_ordered_by_createdAt:
  assumes pk: "distinct (map u_id (users db))" and sel: "getConversation_select db a b result"
  shows "mset (map Message.truncate (getConversation_return result)) = mset (conversation db a b) \<and>
         sorted (map m_createdAt (getConversation_return result)) \<and>
         (distinct (map m_createdAt (conversation db a b)) \<longrightarrow>
            map Message.truncate (getConversation_return result) = sort_key m_createdAt (conversation db a b)) \<and>
         (distinct (map m_createdAt (conversation db a b)) \<and> sorted (map m_createdAt (messages db)) \<longrightarrow>
            map Message.truncate (getConversation_return result) = conversation db a b) \<and>
         getConversation_select db a b
           (sort_key (\<lambda>row. m_createdAt (fst row)) (getConversation_rows db a b))"
proof -
  let ?xs = "map fst result"
  have ms: "mset ?xs = mset (conversation db a b)"
  proof -
    have "mset result = mset (getConversation_rows db a b)"
      using sel by (simp add: getConversation_select_def orderBy_asc_def)
    then have "mset (map fst result) = mset (map fst (getConversation_rows db a b))"
      by (metis mset_map)
    then show ?thesis by (simp add: getConversation_rows_pkey[OF pk])
  qed
  have so: "sorted (map m_createdAt ?xs)"
    using sel by (simp add: getConversation_select_def orderBy_asc_def comp_def)
  have d: "?xs = sort_key m_createdAt (conversation db a b)"
    if "distinct (map m_createdAt (conversation db a b))"
    using sorted_perm_distinct_keys[OF ms so that] .
  have i: "sort_key m_createdAt (conversation db a b) = conversation db a b"
    if "sorted (map m_createdAt (messages db))"
    using that by (simp add: conversation_def sort_key_id_if_sorted sorted_filter)
  from ms so d i getConversation_select_sort[of db a b] show ?thesis
    by (simp add: getConversation_return_truncate comp_def)
qed

lemma db0_users_list [simp]: "users db0 = [userA, userB]"
  by (simp add: db0_def userA_def userB_def)

lemma user_ids [simp]: "u_id userA = ''A''" "u_id userB = ''B''"
  by (simp_all add: userA_def userB_def mkUser_def)

lemma sendMessage_users [simp]: "users (snd (sendMessage db now i)) = users db"
  by (simp add: sendMessage_def Let_def)

lemma db_conv_messages: "messages db_conv = [M1, M2, M3]"
  by (simp add: db_conv_def send_def sendMessage_ok M1_def M2_def M3_def)

lemma db_tie_messages: "messages db_tie = [T1, T2]"
  by (simp add: db_tie_def send_def sendMessage_ok T1_def T2_def)

lemma db_conv_users [simp]: "users db_conv = [userA, userB]"
  by (simp add: db_conv_def)

lemma db_tie_users [simp]: "users db_tie = [userA, userB]"
  by (simp add: db_tie_def)

lemma M_simps [simp]:
  "senderId M1 = ''A''" "receiverId M1 = ''B''" "m_createdAt M1 = 5" "m_id M1 = 1"
  "senderId M2 = ''B''" "receiverId M2 = ''A''" "m_createdAt M2 = 6" "m_id M2 = 2"
  "senderId M3 = ''A''" "receiverId M3 = ''B''" "m_createdAt M3 = 7" "m_id M3 = 3"
  "senderId T1 = ''A''" "receiverId T1 = ''B''" "m_createdAt T1 = 5" "m_id T1 = 1"
  "senderId T2 = ''B''" "receiverId T2 = ''A''" "m_createdAt T2 = 5" "m_id T2 = 2"
  by (simp_all add: M1_def M2_def M3_def T1_def T2_def)

lemma db_conv_rows:
  "getConversation_rows db_conv ''A'' ''B'' = [(M1, Some userA), (M2, Some userB), (M3, Some userA)]"
  by (simp add: getConversation_rows_def leftJoin_users_def db_conv_messages)

lemma db_tie_rows:
  "getConversation_rows db_tie ''A'' ''B'' = [(T1, Some userA), (T2, Some userB)]"
  by (simp add: getConversation_rows_def leftJoin_users_def db_tie_messages)

lemma db_conv_select:
  "getConversation_select db_conv ''A'' ''B'' [(M1, Some userA), (M2, Some userB), (M3, Some userA)]"
  by (simp add: getConversation_select_def orderBy_asc_def db_conv_rows)

theorem getConversation_ordered_by_createdAt_witness:
  "distinct (map u_id (users db_conv)) \<and>
   getConversation_select db_conv ''A'' ''B'' [(M1, Some userA), (M2, Some userB), (M3, Some userA)] \<and>
   messages db_conv = [M1, M2, M3] \<and>
   conversation db_conv ''A'' ''B'' = [M1, M2, M3] \<and>
   map Message.truncate (getConversation_return [(M1, Some userA), (M2, Some userB), (M3, Some userA)]) = [M1, M2, M3]"
  using getConversation_ordered_by_createdAt[of db_conv "''A''" "''B''" "[(M1, Some userA), (M2, Some userB), (M3, Some userA)]"]
  by (simp add: db_conv_select db_conv_messages conversation_def doubleton_eq_iff getConversation_return_def)

text \<open>The claim as written fails on a tie: two messages stored with the same
  \<open>createdAt\<close> may come back with the larger id first.\<close>

theorem getConversation_tie_not_by_id:
  "messages db_tie = [T1, T2] \<and>
   getConversation_select db_tie ''A'' ''B'' [(T2, Some userB), (T1, Some userA)] \<and>
   map m_createdAt (getConversation_return [(T2, Some userB), (T1, Some userA)]) = [5, 5] \<and>
   map m_id (getConversation_return [(T2, Some userB), (T1, Some userA)]) = [2, 1]"
  by (simp add: db_tie_messages getConversation_select_def orderBy_asc_def db_tie_rows getConversation_return_def)

lemma conversation_member:
  "m \<in> set (conversation db uid p) \<longleftrightarrow>
     m \<in> set (messages db) \<and> involves uid m \<and> otherUserId uid m = p"
  by (auto simp: conversation_def involves_def otherUserId_def doubleton_eq_iff)

lemma fst_getConversations_rows:
  "fst ` set (getConversations_rows db uid) = {m \<in> set (messages db). involves uid m}"
proof -
  have "fst ` set (getConversations_rows db uid) =
          {m \<in> fst ` set (concat (map (leftJoin_users db) (messages db))). involves uid m}"
    by (force simp: getConversations_rows_def involves_def)
  then show ?thesis by (simp only: fst_joined_rows)
qed

lemma partners_eq:
  "{p. conversation db uid p \<noteq> []} = otherUserId uid ` {m \<in> set (messages db). involves uid m}"
proof -
  have "conversation db uid p \<noteq> [] \<longleftrightarrow> (\<exists>m. m \<in> set (conversation db uid p))" for p
    by (cases "conversation db uid p") auto
  then show ?thesis by (auto simp: conversation_member)
qed

lemma getConversations_select_sort:
  "getConversations_select db uid
     (rev (sort_key (\<lambda>row. m_createdAt (fst row)) (getConversations_rows db uid)))"
  by (simp add: getConversations_select_def orderBy_desc_def rev_map[symmetric])

text \<open>
  The grouping of the conversations listing. For every user \<open>U\<close>, every result has
  exactly one entry per conversation partner of \<open>U\<close> (the users \<open>p\<close> whose
  conversation with \<open>U\<close> is not empty), where the partner of an entry is the other
  party of its \<open>senderId\<close> and \<open>receiverId\<close>; each entry is a message of the
  conversation of \<open>U\<close> with that partner, and no message of that conversation has a
  later \<open>createdAt\<close>; the entries are in descending order of \<open>createdAt\<close>; and
  the sender and the receiver object of an entry are one and the same, the user row
  joined on the \<open>senderId\<close>. The query always has a result.
\<close>

lemma getConversations_latest_per_partner:
  assumes sel: "getConversations_select db uid rows"
  shows "distinct (map (otherUserId uid) (getConversations_return uid rows)) \<and>
         set (map (otherUserId uid) (getConversations_return uid rows)) = {p. conversation db uid p \<noteq> []} \<and>
         (\<forall>e \<in> set (getConversations_return uid rows).
            Message.truncate e \<in> set (conversation db uid (otherUserId uid e)) \<and>
            (\<forall>m \<in> set (conversation db uid (otherUserId uid e)). m_createdAt m \<le> m_createdAt e)) \<and>
         sorted (rev (map m_createdAt (getConversations_return uid rows))) \<and>
         (\<forall>e \<in> set (getConversations_return uid rows).
            receiver e = sender e \<and>
            (\<forall>u. sender e = Some u \<longrightarrow> u \<in> set (users db) \<and> u_id u = senderId e)) \<and>
         getConversations_select db uid
           (rev (sort_key (\<lambda>row. m_createdAt (fst row)) (getConversations_rows db uid)))"
proof -
  let ?cm = "conversationMap_loop uid rows []"
  let ?res = "getConversations_return uid rows"
  have res: "?res = map snd ?cm" by (simp add: getConversations_return_def)
  have rows: "set rows = set (getConversations_rows db uid)"
    using sel by (rule select_set(2))
  have srt: "sorted_wrt (\<lambda>a b. b \<le> a) (map (\<lambda>r. m_createdAt (fst r)) rows)"
    using sel by (simp add: getConversations_select_def orderBy_desc_def sorted_wrt_rev)
  have ent: "\<exists>r \<in> set rows. k = otherUserId uid (fst r) \<and> e = withUsers r"
    if "(k, e) \<in> set ?cm" for k e
    using loop_entries[OF that] by simp
  have key: "otherUserId uid (snd p) = fst p" if "p \<in> set ?cm" for p
    using ent[of "fst p" "snd p"] that by auto
  have keys: "map (otherUserId uid) ?res = map fst ?cm"
    by (simp add: res key)
  have msgs: "fst ` set rows = {m \<in> set (messages db). involves uid m}"
    by (simp only: rows fst_getConversations_rows)
  have c1: "distinct (map (otherUserId uid) ?res)"
    unfolding keys by (rule loop_distinct) simp
  have c2: "set (map (otherUserId uid) ?res) = {p. conversation db uid p \<noteq> []}"
  proof -
    have "set (map fst ?cm) = otherUserId uid ` fst ` set rows"
      by (simp add: loop_keys image_image)
    then show ?thesis by (simp only: keys msgs partners_eq)
  qed
  have c3: "Message.truncate e \<in> set (conversation db uid (otherUserId uid e)) \<and>
            (\<forall>m \<in> set (conversation db uid (otherUserId uid e)). m_createdAt m \<le> m_createdAt e)"
    if "e \<in> set ?res" for e
  proof -
    from that obtain k where ke: "(k, e) \<in> set ?cm" by (auto simp: res)
    from ent[OF ke] obtain r where r: "r \<in> set rows" "k = otherUserId uid (fst r)" "e = withUsers r"
      by blast
    from r(1) msgs have fr: "fst r \<in> set (messages db)" "involves uid (fst r)" by auto
    have a: "Message.truncate e \<in> set (conversation db uid (otherUserId uid e))"
      using fr r(3) by (simp add: conversation_member)
    have b: "m_createdAt m \<le> m_createdAt e" if "m \<in> set (conversation db uid (otherUserId uid e))" for m
    proof -
      from that r have m: "m \<in> set (messages db)" "involves uid m" "otherUserId uid m = k"
        by (simp_all add: conversation_member)
      then have "m \<in> fst ` set rows" by (simp add: msgs)
      then obtain r' where r': "r' \<in> set rows" "fst r' = m" by auto
      from loop_latest[OF srt ke] r' m(3) show ?thesis by auto
    qed
    from a b show ?thesis by blast
  qed
  have c4: "sorted (rev (map m_createdAt ?res))"
  proof -
    have "sorted_wrt (\<lambda>a b. b \<le> a) (map (\<lambda>p. m_createdAt (snd p)) ?cm)"
      using srt by (intro loop_sorted) simp
    then show ?thesis by (simp add: res sorted_wrt_rev comp_def)
  qed
  have c5: "receiver e = sender e \<and>
            (\<forall>u. sender e = Some u \<longrightarrow> u \<in> set (users db) \<and> u_id u = senderId e)"
    if "e \<in> set ?res" for e
  proof -
    from that obtain r where r: "r \<in> set rows" "e = withUsers r"
      using getConversations_return_entries[of e uid rows] by blast
    from r(1) rows have "r \<in> set (getConversation_rows db uid uid) \<or> r \<in> set (getConversations_rows db uid)"
      by simp
    from row_user[OF this] r(2) show ?thesis by simp
  qed
  from c1 c2 c3 c4 c5 getConversations_select_sort[of db uid] show ?thesis by blast
qed

lemma N_simps [simp]:
  "senderId N1 = ''A''" "receiverId N1 = ''B''" "m_createdAt N1 = 5" "m_id N1 = 1"
  "senderId N2 = ''C''" "receiverId N2 = ''A''" "m_createdAt N2 = 6" "m_id N2 = 2"
  "senderId N3 = ''B''" "receiverId N3 = ''A''" "m_createdAt N3 = 7" "m_id N3 = 3"
  "senderId N4 = ''B''" "receiverId N4 = ''C''" "m_createdAt N4 = 8" "m_id N4 = 4"
  "u_id userC = ''C''"
  by (simp_all add: N1_def N2_def N3_def N4_def userC_def mkUser_def)

lemma db_inbox_rows:
  "getConversations_rows db_inbox ''A'' = [(N1, Some userA), (N2, Some userC), (N3, Some userB)]"
  by (simp add: getConversations_rows_def leftJoin_users_def db_inbox_def)

lemma db_inbox_select: "getConversations_select db_inbox ''A'' rows_inbox"
  by (simp add: getConversations_select_def orderBy_desc_def db_inbox_rows rows_inbox_def)

lemma db_inbox_return:
  "getConversations_return ''A'' rows_inbox = [withUsers (N3, Some userB), withUsers (N2, Some userC)]"
  by (simp add: getConversations_return_def rows_inbox_def otherUserId_def)

lemma getConversations_inbox_A:
  "getConversations_select db_inbox ''A'' rows_inbox \<and>
   map m_id (getConversations_return ''A'' rows_inbox) = [3, 2] \<and>
   map (otherUserId ''A'') (getConversations_return ''A'' rows_inbox) = [''B'', ''C''] \<and>
   map m_createdAt (getConversations_return ''A'' rows_inbox) = [7, 6] \<and>
   {p. conversation db_inbox ''A'' p \<noteq> []} = {''B'', ''C''}"
  using getConversations_latest_per_partner[of db_inbox "''A''" rows_inbox]
  by (simp add: db_inbox_select db_inbox_return otherUserId_def)

lemma db_inbox_rows_B:
  "getConversations_rows db_inbox ''B'' = [(N1, Some userA), (N3, Some userB), (N4, Some userB)]"
  by (simp add: getConversations_rows_def leftJoin_users_def db_inbox_def)

text \<open>
  Claim C5. The conversations listing is to return one entry per distinct partner of
  \<open>U\<close>, the most recent message of each conversation, in descending order of
  \<open>createdAt\<close>, with the partner identified as the other party whether \<open>U\<close> sent or
  received the row. The code groups by the right partner, but it fills the sender and
  the receiver object of an entry with the one user row joined on \<open>senderId\<close> (its
  comment: this would need proper joining). In the listing of \<open>B\<close>, who sent the
  latest message to \<open>C\<close> and the latest message to \<open>A\<close>, both entries carry the
  record of \<open>B\<close> as sender and as receiver, and the record of the partner nowhere.
\<close>

theorem getConversations_entry_lacks_partner_record:
  "getConversations_select db_inbox ''B'' rows_inbox_B \<and>
   map (\<lambda>e. (m_id e, otherUserId ''B'' e, map_option u_id (sender e), map_option u_id (receiver e)))
       (getConversations_return ''B'' rows_inbox_B)
     = [(4, ''C'', Some ''B'', Some ''B''), (3, ''A'', Some ''B'', Some ''B'')]"
  by (simp add: getConversations_select_def orderBy_desc_def db_inbox_rows_B rows_inbox_B_def
      getConversations_return_def otherUserId_def)

end
